theory Spec2Isabelle
  imports Complex_Main "HOL-Library.Multiset" "HOL-Library.Sublist"
begin

section \<open>Data model\<close>

text \<open>
  \<^verbatim>\<open>app/models/insight.py\<close>: the pydantic model \<^verbatim>\<open>Insight\<close>. The field
  \<^verbatim>\<open>description\<close> is display text rendered from floats with \<^verbatim>\<open>:.2f\<close>; no
  operation of the program reads it back and it is left out. \<^verbatim>\<open>confidence\<close> is validated
  to lie in \<open>[0, 1]\<close>, so it is never NaN and is modelled as a real number.
\<close>

record insight =
  title :: string
  confidence :: real
  category :: string
  affected_columns :: "string list"
  affected_rows :: "int list"

text \<open>\<^verbatim>\<open>app/core/config.py\<close>: the two processing settings and their defaults.\<close>

record settings =
  max_insights :: int
  min_confidence_score :: real

definition default_settings :: settings where
  "default_settings = \<lparr>max_insights = 5, min_confidence_score = 0.1\<rparr>"

text \<open>
  The pandas \<^verbatim>\<open>DataFrame\<close> is a library object. It is modelled by what pandas returns for
  each query the stage functions make of it. A float that may be NaN is a \<open>real option\<close>
  with \<open>None\<close> for NaN; every comparison with NaN is false. A finite float is the real
  number it denotes: the rounding of binary64 arithmetic is left out.
\<close>

record series =
  s_items :: "(int \<times> real) list"      \<comment> \<open>index label and value of each non-missing entry\<close>
  s_mean :: real                       \<comment> \<open>\<^verbatim>\<open>series.mean()\<close>\<close>
  s_std :: "real option"               \<comment> \<open>\<^verbatim>\<open>series.std()\<close>, NaN for a single entry\<close>
  s_quantile :: "real \<Rightarrow> real"         \<comment> \<open>\<^verbatim>\<open>series.quantile(q)\<close>\<close>

record dataframe =
  nrows :: nat                         \<comment> \<open>\<^verbatim>\<open>len(df)\<close>\<close>
  columns :: "string list"             \<comment> \<open>\<^verbatim>\<open>df.columns\<close>\<close>
  numeric :: "string list"             \<comment> \<open>\<^verbatim>\<open>df.select_dtypes(include=[np.number]).columns\<close>\<close>
  dropna :: "string \<Rightarrow> series"         \<comment> \<open>\<^verbatim>\<open>df[col].dropna()\<close>\<close>
  corr :: "nat \<Rightarrow> nat \<Rightarrow> real option"  \<comment> \<open>\<^verbatim>\<open>df[numeric].corr().iat[i, j]\<close>\<close>
  isnull_sum :: "(string \<times> nat) list"  \<comment> \<open>\<^verbatim>\<open>df.isnull().sum().items()\<close>\<close>
  duplicated_sum :: nat                \<comment> \<open>\<^verbatim>\<open>df.duplicated().sum()\<close>\<close>

text \<open>A Python exception is a value carrying its text.\<close>

datatype exn = Exn string

section \<open>Insight engine\<close>

text \<open>\<^verbatim>\<open>InsightService._generate_overview_insights\<close>\<close>

definition generate_overview_insights :: "dataframe \<Rightarrow> insight list" where
  "generate_overview_insights df =
     [\<lparr>title = ''Dataset Overview'', confidence = 0.95, category = ''overview'',
       affected_columns = columns df, affected_rows = []\<rparr>]"

text \<open>
  \<^verbatim>\<open>InsightService._generate_statistical_insights\<close>: the body of the loop over the numeric
  columns, then the loop.
\<close>

definition float_gt :: "real option \<Rightarrow> real \<Rightarrow> bool" where
  "float_gt x y = (case x of None \<Rightarrow> False | Some v \<Rightarrow> y < v)"

definition statistical_column :: "dataframe \<Rightarrow> string \<Rightarrow> insight list" where
  "statistical_column df col =
     (let series = dropna df col in
      if s_items series = [] then []
      else
        let mean = s_mean series;
            std = s_std series;
            variability =
              (if float_gt std (mean * 0.5)
               then [\<lparr>title = ''High Variability in '' @ col, confidence = 0.8,
                      category = ''statistical'', affected_columns = [col],
                      affected_rows = []\<rparr>]
               else []);
            q1 = s_quantile series 0.25;
            q3 = s_quantile series 0.75;
            iqr = q3 - q1;
            outliers = filter (\<lambda>(idx, v). v < q1 - 1.5 * iqr \<or> v > q3 + 1.5 * iqr)
                         (s_items series);
            anomaly =
              (if outliers \<noteq> []
               then [\<lparr>title = ''Outliers Detected in '' @ col, confidence = 0.75,
                      category = ''anomaly'', affected_columns = [col],
                      affected_rows = take 10 (map fst outliers)\<rparr>]
               else [])
        in variability @ anomaly)"

definition generate_statistical_insights :: "dataframe \<Rightarrow> insight list" where
  "generate_statistical_insights df = concat (map (statistical_column df) (numeric df))"

text \<open>
  \<^verbatim>\<open>InsightService._generate_pattern_insights\<close>: the body of the inner loop for the pair
  at positions \<open>i\<close>, \<open>j\<close> with names \<open>c1\<close>, \<open>c2\<close>, then the two nested
  \<^verbatim>\<open>enumerate\<close> loops.
\<close>

definition pattern_pair :: "dataframe \<Rightarrow> nat \<Rightarrow> string \<Rightarrow> nat \<Rightarrow> string \<Rightarrow> insight list" where
  "pattern_pair df i c1 j c2 =
     (case corr df i j of
        None \<Rightarrow> []
      | Some val \<Rightarrow>
          if \<bar>val\<bar> > 0.7
          then [\<lparr>title = ''Strong '' @ (if val > 0 then ''Positive'' else ''Negative'')
                          @ '' Correlation'',
                 confidence = min 0.9 \<bar>val\<bar>, category = ''pattern'',
                 affected_columns = [c1, c2], affected_rows = []\<rparr>]
          else [])"

definition generate_pattern_insights :: "dataframe \<Rightarrow> insight list" where
  "generate_pattern_insights df =
     (let numeric = numeric df in
      if length numeric > 1
      then concat (map (\<lambda>(i, c1).
             concat (map (\<lambda>(j, c2). pattern_pair df i c1 j c2)
                       (enumerate (i + 1) (drop (i + 1) numeric))))
             (enumerate 0 numeric))
      else [])"

text \<open>
  \<^verbatim>\<open>InsightService._generate_quality_insights\<close>. The counts that \<^verbatim>\<open>missing.items()\<close>
  yields and \<^verbatim>\<open>len(df)\<close> are Python integers, so \<^verbatim>\<open>cnt / total\<close> raises
  \<^verbatim>\<open>ZeroDivisionError\<close> on a frame without rows, at the first column; the loop stops
  there. The count of duplicated rows is divided only when it is positive.
\<close>

definition quality_column :: "nat \<Rightarrow> string \<times> nat \<Rightarrow> exn + insight list" where
  "quality_column total_rows item =
     (case item of (col, cnt) \<Rightarrow>
        if total_rows = 0 then Inl (Exn ''division by zero'')
        else
          let pct = (real cnt / real total_rows) * 100 in
          if cnt > 0 \<and> pct > 10
          then Inr [\<lparr>title = ''Missing Data in '' @ col, confidence = 0.9,
                     category = ''data_quality'', affected_columns = [col],
                     affected_rows = []\<rparr>]
          else Inr [])"

fun quality_loop :: "nat \<Rightarrow> (string \<times> nat) list \<Rightarrow> exn + insight list" where
  "quality_loop total_rows [] = Inr []"
| "quality_loop total_rows (item # items) =
     (case quality_column total_rows item of
        Inl x \<Rightarrow> Inl x
      | Inr found \<Rightarrow>
          (case quality_loop total_rows items of
             Inl x \<Rightarrow> Inl x
           | Inr rest \<Rightarrow> Inr (found @ rest)))"

definition generate_quality_insights :: "dataframe \<Rightarrow> exn + insight list" where
  "generate_quality_insights df =
     (case quality_loop (nrows df) (isnull_sum df) of
        Inl x \<Rightarrow> Inl x
      | Inr insights \<Rightarrow>
          let dupes = duplicated_sum df in
          Inr (if dupes > 0
               then insights @ [\<lparr>title = ''Duplicate Rows Detected'', confidence = 0.95,
                                  category = ''data_quality'', affected_columns = columns df,
                                  affected_rows = []\<rparr>]
               else insights))"

section \<open>Selection policy: filter, sort, trim\<close>

text \<open>
  \<^verbatim>\<open>xs[:k]\<close> of Python: a negative \<open>k\<close> counts from the end.
\<close>

definition py_slice_to :: "'a list \<Rightarrow> int \<Rightarrow> 'a list" where
  "py_slice_to xs k =
     (if 0 \<le> k then take (nat k) xs else take (length xs - nat (- k)) xs)"

text \<open>
  \<^verbatim>\<open>xs.sort(key=key, reverse=True)\<close>: CPython reverses the list, sorts it stably in ascending
  order of the key, and reverses the result.
\<close>

definition py_sort_reverse :: "('a \<Rightarrow> real) \<Rightarrow> 'a list \<Rightarrow> 'a list" where
  "py_sort_reverse key xs = rev (sort_key key (rev xs))"

text \<open>Lines 123 to 126 of \<^verbatim>\<open>generate_insights_with_progress\<close>.\<close>

definition filter_sort_trim :: "settings \<Rightarrow> insight list \<Rightarrow> insight list" where
  "filter_sort_trim cfg insights =
     (let filtered = filter (\<lambda>i. confidence i \<ge> min_confidence_score cfg) insights;
          filtered = py_sort_reverse confidence filtered
      in py_slice_to filtered (max_insights cfg))"

text \<open>
  The selection as the specification words it: keep what reaches the threshold, order by
  descending confidence with the library's stable insertion sort, keep the first \<open>n\<close>.
\<close>

definition spec_select :: "real \<Rightarrow> nat \<Rightarrow> insight list \<Rightarrow> insight list" where
  "spec_select threshold n xs =
     take n (sort_key (\<lambda>i. - confidence i) (filter (\<lambda>i. threshold \<le> confidence i) xs))"

text \<open>
  The unordered pairs of positions below \<open>n\<close>, and those whose correlation is strong, as
  the specification words the pattern stage.
\<close>

definition index_pairs :: "nat \<Rightarrow> (nat \<times> nat) list" where
  "index_pairs n = concat (map (\<lambda>i. map (Pair i) [i + 1..<n]) [0..<n])"

definition strong_pairs :: "dataframe \<Rightarrow> (nat \<times> nat) list" where
  "strong_pairs df =
     filter (\<lambda>(i, j). float_gt (map_option abs (corr df i j)) 0.7)
       (index_pairs (length (numeric df)))"

section \<open>Progress broadcast hub\<close>

text \<open>
  \<^verbatim>\<open>app/core/websocket_manager.py\<close>. A \<^verbatim>\<open>WebSocket\<close> is an opaque handle. Whether the
  network lets \<^verbatim>\<open>accept()\<close> or \<^verbatim>\<open>send_text()\<close> on a handle succeed is an input of each
  operation.
\<close>

type_synonym websocket = nat

text \<open>
  The message dictionaries, one constructor for each \<^verbatim>\<open>"type"\<close>. The fields are in the
  order of the dictionary literal; the \<^verbatim>\<open>timestamp\<close> and the display text derived from
  the other fields of a progress or completion message are left out.
\<close>

datatype message =
    Connection_established string
  | Status_update string string string real
  | Insight_progress string string int int real nat
  | Insights_complete string nat real

record connection_manager =
  active_connections :: "string \<rightharpoonup> websocket set"

text \<open>
  The result of a hub operation: the manager afterwards, with the message and the handles
  that received it (what the operation did on the network).
\<close>

type_synonym hub_result = "exn + connection_manager \<times> message \<times> websocket set"

definition send_text :: "(websocket \<Rightarrow> bool) \<Rightarrow> websocket \<Rightarrow> message \<Rightarrow> exn + unit" where
  "send_text delivers ws msg = (if delivers ws then Inr () else Inl (Exn ''send failed''))"

definition send_personal_message ::
    "(websocket \<Rightarrow> bool) \<Rightarrow> connection_manager \<Rightarrow> message \<Rightarrow> websocket \<Rightarrow> hub_result" where
  "send_personal_message delivers m msg ws =
     (case send_text delivers ws msg of
        Inr _ \<Rightarrow> Inr (m, msg, {ws})
      | Inl e \<Rightarrow> Inr (m, msg, {}))"

definition connect ::
    "bool \<Rightarrow> (websocket \<Rightarrow> bool) \<Rightarrow> connection_manager \<Rightarrow> websocket \<Rightarrow> string \<Rightarrow> hub_result" where
  "connect accepts delivers m ws file_id =
     (if \<not> accepts then Inl (Exn ''accept failed'')
      else
        let conns = active_connections m;
            conns = (if file_id \<notin> dom conns then conns(file_id \<mapsto> {}) else conns);
            conns = (case conns file_id of
                       None \<Rightarrow> conns
                     | Some subscribers \<Rightarrow> conns(file_id \<mapsto> insert ws subscribers))
        in send_personal_message delivers (m\<lparr>active_connections := conns\<rparr>)
             (Connection_established file_id) ws)"

definition disconnect :: "connection_manager \<Rightarrow> websocket \<Rightarrow> string \<Rightarrow> connection_manager" where
  "disconnect m ws file_id =
     (case active_connections m file_id of
        None \<Rightarrow> m
      | Some subscribers \<Rightarrow>
          let remaining = subscribers - {ws} in
          if remaining = {}
          then m\<lparr>active_connections := (active_connections m)(file_id := None)\<rparr>
          else m\<lparr>active_connections := (active_connections m)(file_id \<mapsto> remaining)\<rparr>)"

text \<open>
  The loop of \<^verbatim>\<open>broadcast_to_file\<close> iterates over the live subscriber set and awaits
  inside it. When another flow connects or disconnects a subscriber of the subject during
  such an await, the next step of the iteration raises \<^verbatim>\<open>RuntimeError\<close> out of the
  loop, before the clean-up. \<open>changed msg\<close> tells whether that happens while \<open>msg\<close> is
  being delivered; with no subscriber in the set nothing is awaited and nothing is raised.
\<close>

definition broadcast_to_file ::
    "(websocket \<Rightarrow> bool) \<Rightarrow> (message \<Rightarrow> bool) \<Rightarrow> connection_manager \<Rightarrow> string \<Rightarrow> message
      \<Rightarrow> hub_result" where
  "broadcast_to_file delivers changed m file_id msg =
     (case active_connections m file_id of
        None \<Rightarrow> Inr (m, msg, {})
      | Some subscribers \<Rightarrow>
          if subscribers \<noteq> {} \<and> changed msg
          then Inl (Exn ''Set changed size during iteration'')
          else
            let disconnected_connections =
                  Set.filter (\<lambda>connection. send_text delivers connection msg \<noteq> Inr ())
                    subscribers
            in Inr (m\<lparr>active_connections :=
                        (active_connections m)
                          (file_id \<mapsto> subscribers - disconnected_connections)\<rparr>,
                    msg, subscribers - disconnected_connections))"

definition send_status_update ::
    "(websocket \<Rightarrow> bool) \<Rightarrow> (message \<Rightarrow> bool) \<Rightarrow> connection_manager \<Rightarrow> string \<Rightarrow> string
      \<Rightarrow> string \<Rightarrow> real \<Rightarrow> hub_result" where
  "send_status_update delivers changed m file_id status text progress =
     broadcast_to_file delivers changed m file_id (Status_update file_id status text progress)"

text \<open>\<^verbatim>\<open>current_step_num / total_steps\<close> raises \<^verbatim>\<open>ZeroDivisionError\<close> for zero steps.\<close>

definition send_insight_progress ::
    "(websocket \<Rightarrow> bool) \<Rightarrow> (message \<Rightarrow> bool) \<Rightarrow> connection_manager \<Rightarrow> string \<Rightarrow> string
      \<Rightarrow> int \<Rightarrow> int \<Rightarrow> nat \<Rightarrow> hub_result" where
  "send_insight_progress delivers changed m file_id current_step total_steps current_step_num
       insights_found =
     (if total_steps = 0 then Inl (Exn ''division by zero'')
      else
        let progress = (real_of_int current_step_num / real_of_int total_steps) * 100
        in broadcast_to_file delivers changed m file_id
             (Insight_progress file_id current_step total_steps current_step_num progress
                insights_found))"

definition send_insights_complete ::
    "(websocket \<Rightarrow> bool) \<Rightarrow> (message \<Rightarrow> bool) \<Rightarrow> connection_manager \<Rightarrow> string \<Rightarrow> nat
      \<Rightarrow> real \<Rightarrow> hub_result" where
  "send_insights_complete delivers changed m file_id insights_count processing_time =
     broadcast_to_file delivers changed m file_id
       (Insights_complete file_id insights_count processing_time)"

text \<open>The registry invariant: no subject is registered with an empty subscriber set.\<close>

definition no_empty_entry :: "connection_manager \<Rightarrow> bool" where
  "no_empty_entry m = ({} \<notin> ran (active_connections m))"

section \<open>Processing orchestrator\<close>

text \<open>
  \<^verbatim>\<open>app/core/database.py\<close>: the columns of \<^verbatim>\<open>FileRecord\<close> that a run reads or writes. The
  primary key is the key of the table.
\<close>

record file_record =
  filepath :: string
  insights :: "insight list option"
  processing_status :: string

text \<open>
  What a run observes of the world outside the source: the settings, whether opening the
  session or reading the record raises, what \<^verbatim>\<open>parse_file\<close> returns for a path, whether
  a library call inside a stage raises, whether each of the two \<^verbatim>\<open>db.commit()\<close> calls
  raises, which handles accept a message at each broadcast, for which messages the
  subscriber set changes during the broadcast, and the elapsed wall-clock time.
\<close>

datatype stage = Overview | Statistical | Pattern | Quality

record env =
  config :: settings
  session_raises :: "string option"
  parse_file :: "string \<Rightarrow> exn + dataframe"
  stage_raises :: "stage \<Rightarrow> string option"
  commit_completed_raises :: "string option"
  commit_failed_raises :: "string option"
  delivers_at :: "nat \<Rightarrow> websocket \<Rightarrow> bool"
  interrupted :: "message \<Rightarrow> bool"
  elapsed :: real

text \<open>
  The effects of a run in the order they happen: a message handed to the hub with the
  handles that received it, a commit that wrote a row, a commit that raised. A broadcast
  that raises leaves no effect.
\<close>

datatype effect =
    Sent message "websocket set"
  | Committed string file_record
  | Commit_failed

text \<open>
  The state a run works on: the hub, the persisted table, the \<^verbatim>\<open>file_record\<close> object held
  by the run's session, whether a commit of that session has raised, and the effects so
  far. A session whose commit raised refuses every later commit, since the function never
  rolls it back.
\<close>

record run_state =
  manager :: connection_manager
  database :: "string \<rightharpoonup> file_record"
  pending :: "file_record option"
  session_failed :: bool
  trace :: "effect list"

type_synonym 'a action = "run_state \<Rightarrow> (exn + 'a) \<times> run_state"

text \<open>Sequencing: an exception skips the rest and keeps the state reached.\<close>

definition and_then :: "'a action \<Rightarrow> ('a \<Rightarrow> 'b action) \<Rightarrow> 'b action" where
  "and_then f g s = (case f s of (Inl x, s') \<Rightarrow> (Inl x, s') | (Inr v, s') \<Rightarrow> g v s')"

definition outcome :: "exn + 'a \<Rightarrow> 'a action" where
  "outcome r s = (r, s)"

definition hub_call ::
    "env \<Rightarrow> ((websocket \<Rightarrow> bool) \<Rightarrow> (message \<Rightarrow> bool) \<Rightarrow> connection_manager \<Rightarrow> hub_result)
      \<Rightarrow> unit action" where
  "hub_call e f s =
     (case f (delivers_at e (length (trace s))) (interrupted e) (manager s) of
        Inl x \<Rightarrow> (Inl x, s)
      | Inr (m, msg, receivers) \<Rightarrow>
          (Inr (), s\<lparr>manager := m, trace := trace s @ [Sent msg receivers]\<rparr>))"

definition assign :: "(file_record \<Rightarrow> file_record) \<Rightarrow> unit action" where
  "assign f s = (Inr (), s\<lparr>pending := map_option f (pending s)\<rparr>)"

definition db_commit :: "string option \<Rightarrow> string \<Rightarrow> unit action" where
  "db_commit raises file_id s =
     (if session_failed s
      then (Inl (Exn ''transaction has been rolled back''),
            s\<lparr>trace := trace s @ [Commit_failed]\<rparr>)
      else
        (case raises of
           Some text \<Rightarrow>
             (Inl (Exn text), s\<lparr>session_failed := True, trace := trace s @ [Commit_failed]\<rparr>)
         | None \<Rightarrow>
             (case pending s of
                None \<Rightarrow> (Inr (), s)
              | Some r \<Rightarrow>
                  (Inr (), s\<lparr>database := (database s)(file_id \<mapsto> r),
                             trace := trace s @ [Committed file_id r]\<rparr>))))"

text \<open>
  What a stage returns or raises: an exception of a library call inside it, or the
  result of the stage function.
\<close>

definition stage_result :: "env \<Rightarrow> stage \<Rightarrow> dataframe \<Rightarrow> exn + insight list" where
  "stage_result e st df =
     (case stage_raises e st of
        Some text \<Rightarrow> Inl (Exn text)
      | None \<Rightarrow>
          (case st of
             Overview \<Rightarrow> Inr (generate_overview_insights df)
           | Statistical \<Rightarrow> Inr (generate_statistical_insights df)
           | Pattern \<Rightarrow> Inr (generate_pattern_insights df)
           | Quality \<Rightarrow> generate_quality_insights df))"

definition run_stage :: "env \<Rightarrow> stage \<Rightarrow> dataframe \<Rightarrow> insight list action" where
  "run_stage e st df = outcome (stage_result e st df)"

text \<open>The \<^verbatim>\<open>try\<close> block of \<^verbatim>\<open>generate_insights_with_progress\<close>, lines 43 to 141.\<close>

definition try_block :: "env \<Rightarrow> string \<Rightarrow> string \<Rightarrow> insight list action" where
  "try_block e file_id path =
     and_then (hub_call e (\<lambda>d c m.
         send_status_update d c m file_id ''processing'' ''Starting analysis...'' 0)) (\<lambda>_.
     and_then (hub_call e (\<lambda>d c m.
         send_insight_progress d c m file_id ''Parsing dataset'' 6 1 0)) (\<lambda>_.
     and_then (outcome (parse_file e path)) (\<lambda>df.
     and_then (hub_call e (\<lambda>d c m.
         send_insight_progress d c m file_id ''Validating data structure'' 6 2 0)) (\<lambda>_.
     and_then (hub_call e (\<lambda>d c m.
         send_insight_progress d c m file_id ''Analyzing dataset overview'' 6 3 0)) (\<lambda>_.
     and_then (run_stage e Overview df) (\<lambda>overview.
     let insights = [] @ overview in
     and_then (hub_call e (\<lambda>d c m.
         send_insight_progress d c m file_id ''Analyzing dataset overview'' 6 3
           (length insights))) (\<lambda>_.
     and_then (hub_call e (\<lambda>d c m.
         send_insight_progress d c m file_id ''Performing statistical analysis'' 6 4
           (length insights))) (\<lambda>_.
     and_then (run_stage e Statistical df) (\<lambda>stat_ins.
     let insights = insights @ stat_ins in
     and_then (hub_call e (\<lambda>d c m.
         send_insight_progress d c m file_id ''Detecting patterns and correlations'' 6 5
           (length insights))) (\<lambda>_.
     and_then (run_stage e Pattern df) (\<lambda>pat_ins.
     let insights = insights @ pat_ins in
     and_then (hub_call e (\<lambda>d c m.
         send_insight_progress d c m file_id ''Evaluating data quality'' 6 6
           (length insights))) (\<lambda>_.
     and_then (run_stage e Quality df) (\<lambda>qual_ins.
     let insights = insights @ qual_ins;
         final_insights = filter_sort_trim (config e) insights in
     and_then (assign (\<lambda>r. r\<lparr>insights := Some final_insights\<rparr>)) (\<lambda>_.
     and_then (assign (\<lambda>r. r\<lparr>processing_status := ''completed''\<rparr>)) (\<lambda>_.
     and_then (db_commit (commit_completed_raises e) file_id) (\<lambda>_.
     and_then (hub_call e (\<lambda>d c m.
         send_insights_complete d c m file_id (length final_insights) (elapsed e))) (\<lambda>_.
     outcome (Inr final_insights))))))))))))))))))"

text \<open>
  The \<^verbatim>\<open>except Exception as e\<close> block, lines 143 to 158: the inner \<^verbatim>\<open>try\<close> discards
  whatever its two statements raise; the broadcast that follows is not guarded.
\<close>

definition except_block :: "env \<Rightarrow> string \<Rightarrow> string \<Rightarrow> insight list action" where
  "except_block e file_id cause s =
     (let s1 = snd (and_then (assign (\<lambda>r. r\<lparr>processing_status := ''failed''\<rparr>))
                      (\<lambda>_. db_commit (commit_failed_raises e) file_id) s)
      in and_then (hub_call e (\<lambda>d c m.
             send_status_update d c m file_id ''failed'' (''Analysis failed: '' @ cause) 0))
           (\<lambda>_. outcome (Inr [])) s1)"

text \<open>
  \<^verbatim>\<open>InsightService.generate_insights_with_progress\<close>. Opening the session and
  \<^verbatim>\<open>db.get\<close> come before the \<^verbatim>\<open>try\<close>; \<^verbatim>\<open>db.get\<close> is the lookup in the table. In the
  branch without a record \<^verbatim>\<open>db.close()\<close> follows the broadcast and is skipped when the
  broadcast raises; with a record it is the \<^verbatim>\<open>finally\<close> clause. \<^verbatim>\<open>db.close()\<close> drops
  the session's object.
\<close>

definition db_close :: "(exn + 'a) \<times> run_state \<Rightarrow> (exn + 'a) \<times> run_state" where
  "db_close r = (case r of (v, s) \<Rightarrow> (v, s\<lparr>pending := None\<rparr>))"

definition generate_insights_with_progress :: "env \<Rightarrow> string \<Rightarrow> insight list action" where
  "generate_insights_with_progress e file_id s =
     (case session_raises e of
        Some text \<Rightarrow> (Inl (Exn text), s)
      | None \<Rightarrow>
          (case database s file_id of
             None \<Rightarrow>
               (case hub_call e (\<lambda>d c m.
                       send_status_update d c m file_id ''failed''
                         ''File not found; aborting insights'' 0) s of
                  (Inl x, s') \<Rightarrow> (Inl x, s')
                | (Inr _, s') \<Rightarrow> db_close (Inr [], s'))
           | Some file_record \<Rightarrow>
               db_close
                 (case try_block e file_id (filepath file_record)
                         (s\<lparr>pending := Some file_record, session_failed := False\<rparr>) of
                    (Inr final_insights, s') \<Rightarrow> (Inr final_insights, s')
                  | (Inl (Exn cause), s') \<Rightarrow> except_block e file_id cause s')))"

text \<open>
  \<^verbatim>\<open>FileService.update_processing_status\<close>, which the \<^verbatim>\<open>/process\<close> endpoint calls with
  \<^verbatim>\<open>"processing"\<close> before it schedules a run.
\<close>

definition update_processing_status ::
    "string option \<Rightarrow> string \<Rightarrow> string \<Rightarrow> (string \<rightharpoonup> file_record)
      \<Rightarrow> exn + (string \<rightharpoonup> file_record)" where
  "update_processing_status raises file_id status db =
     (case db file_id of
        None \<Rightarrow> Inl (Exn (''File not found: '' @ file_id))
      | Some record \<Rightarrow>
          (case raises of
             Some text \<Rightarrow> Inl (Exn text)
           | None \<Rightarrow> Inr (db(file_id \<mapsto> record\<lparr>processing_status := status\<rparr>))))"

text \<open>What a run adds to the trace, and the readings of a trace that the properties use.\<close>

definition run_effects :: "env \<Rightarrow> string \<Rightarrow> run_state \<Rightarrow> effect list" where
  "run_effects e file_id s =
     drop (length (trace s)) (trace (snd (generate_insights_with_progress e file_id s)))"

fun progress_steps :: "effect list \<Rightarrow> (int \<times> int) list" where
  "progress_steps [] = []"
| "progress_steps (Sent (Insight_progress f step total_steps current_step_num p n) rs # es) =
     (current_step_num, total_steps) # progress_steps es"
| "progress_steps (_ # es) = progress_steps es"

text \<open>
  The confidence the pattern stage gives to a pair, what the quality stage returns (nothing
  when it raises), and the outputs of the four stages in the order in which a run appends
  them.
\<close>

definition pattern_confidence :: "dataframe \<Rightarrow> nat \<Rightarrow> nat \<Rightarrow> real" where
  "pattern_confidence df i j = (case corr df i j of None \<Rightarrow> 0 | Some v \<Rightarrow> min 0.9 \<bar>v\<bar>)"

definition quality_found :: "dataframe \<Rightarrow> insight list" where
  "quality_found df = (case generate_quality_insights df of Inl x \<Rightarrow> [] | Inr found \<Rightarrow> found)"

definition stage_insights :: "dataframe \<Rightarrow> insight list" where
  "stage_insights df =
     generate_overview_insights df @ generate_statistical_insights df
       @ generate_pattern_insights df @ quality_found df"

section \<open>A run listed by cases\<close>

text \<open>
  Auxiliary notions for reasoning about a run: whether the subject has a subscriber (only
  then can a broadcast raise), the hub after a broadcast and the handles reached, a state
  after one message was handed to the hub, whether the subject still has a subscriber
  after a list of messages, the trace with the receivers forgotten, the first failure of
  the \<^verbatim>\<open>try\<close> block before its commit with the messages sent until then, what the
  handler does, and the result, effects and table of a whole run.
  \<open>run_observed_summary\<close> below proves that the run does exactly this.
\<close>

definition listening :: "connection_manager \<Rightarrow> string \<Rightarrow> bool" where
  "listening m f =
     (case active_connections m f of None \<Rightarrow> False | Some subscribers \<Rightarrow> subscribers \<noteq> {})"

definition blocked :: "env \<Rightarrow> bool \<Rightarrow> message \<Rightarrow> bool" where
  "blocked e l msg = (l \<and> interrupted e msg)"

definition hub_after ::
    "(websocket \<Rightarrow> bool) \<Rightarrow> connection_manager \<Rightarrow> string \<Rightarrow> connection_manager" where
  "hub_after d m f =
     (case active_connections m f of
        None \<Rightarrow> m
      | Some subscribers \<Rightarrow>
          m\<lparr>active_connections := (active_connections m)(f \<mapsto> Set.filter d subscribers)\<rparr>)"

definition receivers_of ::
    "(websocket \<Rightarrow> bool) \<Rightarrow> connection_manager \<Rightarrow> string \<Rightarrow> websocket set" where
  "receivers_of d m f =
     (case active_connections m f of None \<Rightarrow> {} | Some subscribers \<Rightarrow> Set.filter d subscribers)"

definition receivers_at :: "env \<Rightarrow> string \<Rightarrow> run_state \<Rightarrow> websocket set" where
  "receivers_at e f s = receivers_of (delivers_at e (length (trace s))) (manager s) f"

definition sent :: "env \<Rightarrow> string \<Rightarrow> message \<Rightarrow> run_state \<Rightarrow> run_state" where
  "sent e f msg s =
     s\<lparr>manager := hub_after (delivers_at e (length (trace s))) (manager s) f,
       trace := trace s @ [Sent msg (receivers_at e f s)]\<rparr>"

definition audible :: "env \<Rightarrow> string \<Rightarrow> run_state \<Rightarrow> message list \<Rightarrow> bool" where
  "audible e f s ms = listening (manager (fold (sent e f) ms s)) f"

definition progress_message :: "string \<Rightarrow> string \<Rightarrow> int \<Rightarrow> nat \<Rightarrow> message" where
  "progress_message f step n found =
     Insight_progress f step 6 n (real_of_int n / real_of_int 6 * 100) found"

fun forget :: "effect \<Rightarrow> effect" where
  "forget (Sent msg receivers) = Sent msg {}"
| "forget x = x"

definition stage_value :: "env \<Rightarrow> stage \<Rightarrow> dataframe \<Rightarrow> insight list" where
  "stage_value e st df = (case stage_result e st df of Inl x \<Rightarrow> [] | Inr found \<Rightarrow> found)"

definition run_insights :: "env \<Rightarrow> dataframe \<Rightarrow> insight list" where
  "run_insights e df =
     stage_value e Overview df @ stage_value e Statistical df @ stage_value e Pattern df
       @ stage_value e Quality df"

definition early_messages :: "string \<Rightarrow> message list" where
  "early_messages f =
     [Status_update f ''processing'' ''Starting analysis...'' 0,
      progress_message f ''Parsing dataset'' 1 0]"

definition announcement_messages :: "env \<Rightarrow> string \<Rightarrow> dataframe \<Rightarrow> message list" where
  "announcement_messages e f df =
     (let n1 = length (stage_value e Overview df);
          n2 = n1 + length (stage_value e Statistical df);
          n3 = n2 + length (stage_value e Pattern df)
      in [Status_update f ''processing'' ''Starting analysis...'' 0,
          progress_message f ''Parsing dataset'' 1 0,
          progress_message f ''Validating data structure'' 2 0,
          progress_message f ''Analyzing dataset overview'' 3 0,
          progress_message f ''Analyzing dataset overview'' 3 n1,
          progress_message f ''Performing statistical analysis'' 4 n1,
          progress_message f ''Detecting patterns and correlations'' 5 n2,
          progress_message f ''Evaluating data quality'' 6 n3])"

definition delivered :: "message list \<Rightarrow> effect list" where
  "delivered ms = map (\<lambda>msg. Sent msg {}) ms"

definition failure_of :: "exn + 'a \<Rightarrow> string option" where
  "failure_of r = (case r of Inl (Exn c) \<Rightarrow> Some c | Inr v \<Rightarrow> None)"

definition raise_of :: "env \<Rightarrow> bool \<Rightarrow> message \<Rightarrow> string option" where
  "raise_of e l msg =
     (if blocked e l msg then Some ''Set changed size during iteration'' else None)"

fun first_of :: "(nat \<times> string option) list \<Rightarrow> (nat \<times> string) option" where
  "first_of [] = None"
| "first_of ((k, None) # checks) = first_of checks"
| "first_of ((k, Some c) # checks) = Some (k, c)"

definition raise_at :: "env \<Rightarrow> (message list \<Rightarrow> bool) \<Rightarrow> message list \<Rightarrow> nat \<Rightarrow> string option" where
  "raise_at e lis ms k = raise_of e (lis (take k ms)) (ms ! k)"

definition try_failure ::
    "env \<Rightarrow> (message list \<Rightarrow> bool) \<Rightarrow> string \<Rightarrow> file_record
      \<Rightarrow> (message list \<times> string) option" where
  "try_failure e lis f r =
     (case parse_file e (filepath r) of
        Inl (Exn c) \<Rightarrow>
          (let ms = early_messages f in
           map_option (\<lambda>(k, c). (take k ms, c))
             (first_of [(0, raise_at e lis ms 0), (1, raise_at e lis ms 1), (2, Some c)]))
      | Inr df \<Rightarrow>
          (let ms = announcement_messages e f df in
           map_option (\<lambda>(k, c). (take k ms, c))
             (first_of
                [(0, raise_at e lis ms 0), (1, raise_at e lis ms 1),
                 (2, raise_at e lis ms 2), (3, raise_at e lis ms 3),
                 (4, failure_of (stage_result e Overview df)),
                 (4, raise_at e lis ms 4), (5, raise_at e lis ms 5),
                 (6, failure_of (stage_result e Statistical df)),
                 (6, raise_at e lis ms 6),
                 (7, failure_of (stage_result e Pattern df)),
                 (7, raise_at e lis ms 7),
                 (8, failure_of (stage_result e Quality df))])))"

definition handled ::
    "env \<Rightarrow> bool \<Rightarrow> string \<Rightarrow> (string \<rightharpoonup> file_record) \<Rightarrow> file_record \<Rightarrow> bool
      \<Rightarrow> effect list \<Rightarrow> string
      \<Rightarrow> (exn + insight list) \<times> effect list \<times> (string \<rightharpoonup> file_record)" where
  "handled e l f db r broken before c =
     (let r' = r\<lparr>processing_status := ''failed''\<rparr>;
          writes = (\<not> broken \<and> commit_failed_raises e = None);
          attempt = (if writes then Committed f r' else Commit_failed);
          db' = (if writes then db(f \<mapsto> r') else db);
          msg = Status_update f ''failed'' (''Analysis failed: '' @ c) 0
      in if blocked e l msg
         then (Inl (Exn ''Set changed size during iteration''), before @ [attempt], db')
         else (Inr [], before @ [attempt, Sent msg {}], db'))"

definition run_summary ::
    "env \<Rightarrow> (message list \<Rightarrow> bool) \<Rightarrow> string \<Rightarrow> (string \<rightharpoonup> file_record)
      \<Rightarrow> (exn + insight list) \<times> effect list \<times> (string \<rightharpoonup> file_record)" where
  "run_summary e lis f db =
     (case session_raises e of
        Some t \<Rightarrow> (Inl (Exn t), [], db)
      | None \<Rightarrow>
          (case db f of
             None \<Rightarrow>
               (let msg = Status_update f ''failed'' ''File not found; aborting insights'' 0
                in if blocked e (lis []) msg
                   then (Inl (Exn ''Set changed size during iteration''), [], db)
                   else (Inr [], [Sent msg {}], db))
           | Some r \<Rightarrow>
               (case try_failure e lis f r of
                  Some (ms, c) \<Rightarrow> handled e (lis ms) f db r False (delivered ms) c
                | None \<Rightarrow>
                    (case parse_file e (filepath r) of
                       Inl x \<Rightarrow> (Inr [], [], db)
                     | Inr df \<Rightarrow>
                         (let final_insights = filter_sort_trim (config e) (run_insights e df);
                              r' = r\<lparr>insights := Some final_insights,
                                     processing_status := ''completed''\<rparr>;
                              ms = announcement_messages e f df;
                              before = delivered ms
                          in case commit_completed_raises e of
                               Some c \<Rightarrow>
                                 handled e (lis ms) f db r' True (before @ [Commit_failed]) c
                             | None \<Rightarrow>
                                 (let msg = Insights_complete f (length final_insights)
                                              (elapsed e)
                                  in if blocked e (lis ms) msg
                                     then handled e (lis ms) f (db(f \<mapsto> r')) r' False
                                            (before @ [Committed f r'])
                                            ''Set changed size during iteration''
                                     else (Inr final_insights,
                                           before @ [Committed f r', Sent msg {}],
                                           db(f \<mapsto> r'))))))))"

definition run_observed ::
    "env \<Rightarrow> string \<Rightarrow> run_state
      \<Rightarrow> (exn + insight list) \<times> effect list \<times> (string \<rightharpoonup> file_record)" where
  "run_observed e f s =
     (fst (generate_insights_with_progress e f s), map forget (run_effects e f s),
      database (snd (generate_insights_with_progress e f s)))"

section \<open>Sample inputs\<close>

text \<open>
  A frame of four rows: \<open>x = [1, 2, 3, 40]\<close>, \<open>y = 2x\<close>, a numeric column \<open>w\<close>
  with every entry missing, and a text column.
\<close>

definition demo_frame :: dataframe where
  "demo_frame =
     \<lparr>nrows = 4,
      columns = [''x'', ''y'', ''w'', ''label''],
      numeric = [''x'', ''y'', ''w''],
      dropna = (\<lambda>col.
        if col = ''x''
        then \<lparr>s_items = [(0, 1), (1, 2), (2, 3), (3, 40)], s_mean = 23 / 2,
              s_std = Some (1902 / 100),
              s_quantile = (\<lambda>q. if q < 1 / 2 then 7 / 4 else 49 / 4)\<rparr>
        else if col = ''y''
        then \<lparr>s_items = [(0, 2), (1, 4), (2, 6), (3, 80)], s_mean = 23,
              s_std = Some (3804 / 100),
              s_quantile = (\<lambda>q. if q < 1 / 2 then 7 / 2 else 49 / 2)\<rparr>
        else \<lparr>s_items = [], s_mean = 0, s_std = None, s_quantile = (\<lambda>q. 0)\<rparr>),
      corr = (\<lambda>i j. if i < 2 \<and> j < 2 then Some 1 else None),
      isnull_sum = [(''x'', 0), (''y'', 0), (''w'', 4), (''label'', 0)],
      duplicated_sum = 0\<rparr>"

text \<open>A hub with one subscriber for the subject \<open>f\<close>.\<close>

definition demo_manager :: connection_manager where
  "demo_manager = \<lparr>active_connections = [''f'' \<mapsto> {7}]\<rparr>"

definition finding :: "string \<Rightarrow> real \<Rightarrow> insight" where
  "finding name c =
     \<lparr>title = name, confidence = c, category = ''statistical'', affected_columns = [],
      affected_rows = []\<rparr>"

definition demo_findings :: "insight list" where
  "demo_findings =
     [finding ''a'' (8 / 10), finding ''b'' (5 / 100), finding ''c'' (95 / 100),
      finding ''d'' (8 / 10)]"

definition demo_settings :: settings where
  "demo_settings = \<lparr>max_insights = 2, min_confidence_score = 1 / 10\<rparr>"

text \<open>
  A run that meets no failure on the sample frame, for the subject \<open>f\<close> whose record
  the \<^verbatim>\<open>/process\<close> endpoint has set to \<open>processing\<close>.
\<close>

definition demo_env :: env where
  "demo_env =
     \<lparr>config = default_settings,
      session_raises = None,
      parse_file = (\<lambda>path. if path = ''data.csv'' then Inr demo_frame
                            else Inl (Exn (''Failed to parse file: File not found: '' @ path))),
      stage_raises = (\<lambda>st. None),
      commit_completed_raises = None,
      commit_failed_raises = None,
      delivers_at = (\<lambda>n ws. True),
      interrupted = (\<lambda>msg. False),
      elapsed = 3\<rparr>"

definition demo_state :: run_state where
  "demo_state =
     \<lparr>manager = demo_manager,
      database = [''f'' \<mapsto> \<lparr>filepath = ''data.csv'', insights = None,
                              processing_status = ''processing''\<rparr>],
      pending = None,
      session_failed = False,
      trace = []\<rparr>"

section \<open>Readings of a run and further sample inputs\<close>

text \<open>An environment in which the uploaded file has been removed.\<close>

definition missing_file_env :: env where
  "missing_file_env =
     demo_env\<lparr>parse_file :=
       (\<lambda>path. Inl (Exn (''Failed to parse file: File not found: '' @ path)))\<rparr>"

text \<open>
  The statuses that the commits of a trace wrote, in order, and the terminal status that
  an effect announces to the subscribers, if any. A completion message announces
  \<open>completed\<close>.
\<close>

fun written :: "effect list \<Rightarrow> string list" where
  "written [] = []"
| "written (Committed g r # es) = processing_status r # written es"
| "written (_ # es) = written es"

fun announced :: "effect \<Rightarrow> string option" where
  "announced (Sent (Insights_complete f n t) rs) = Some ''completed''"
| "announced (Sent (Status_update f st tx p) rs) =
     (if st = ''completed'' \<or> st = ''failed'' then Some st else None)"
| "announced _ = None"

text \<open>
  The terminal status that the last effect of a trace announces, if any; whether an
  effect is an attempt to commit a status (a commit that raised is an attempt for any
  status); and whether the last effect of a trace, when it announces a terminal status,
  directly follows an attempt to commit that status.
\<close>

definition terminal :: "effect list \<Rightarrow> string option" where
  "terminal tr = (if tr = [] then None else announced (last tr))"



text \<open>An environment in which the file is gone and the table cannot be written.\<close>

definition unwritable_env :: env where
  "unwritable_env = missing_file_env\<lparr>commit_failed_raises := Some ''database is locked''\<rparr>"

text \<open>
  Two environments in which the subscriber of the subject leaves during a broadcast, so
  that the broadcast raises: in the first the file is gone and the subscriber leaves while
  the failure is announced, in the second the run meets no failure until the subscriber
  leaves while the completion is announced.
\<close>

fun failure_notice :: "message \<Rightarrow> bool" where
  "failure_notice (Status_update f st tx p) = (st = ''failed'')"
| "failure_notice _ = False"

fun completion_notice :: "message \<Rightarrow> bool" where
  "completion_notice (Insights_complete f n t) = True"
| "completion_notice _ = False"

definition hangup_env :: env where
  "hangup_env = missing_file_env\<lparr>interrupted := failure_notice\<rparr>"

definition cut_off_env :: env where
  "cut_off_env = demo_env\<lparr>interrupted := completion_notice\<rparr>"

text \<open>
  The state after the run without failures, and that state after the \<^verbatim>\<open>/process\<close>
  endpoint has been called again for the same subject.
\<close>

definition completed_state :: run_state where
  "completed_state = snd (generate_insights_with_progress demo_env ''f'' demo_state)"

definition retriggered_state :: run_state where
  "retriggered_state =
     completed_state
       \<lparr>database :=
          (case update_processing_status None ''f'' ''processing'' (database completed_state) of
             Inl x \<Rightarrow> database completed_state
           | Inr db \<Rightarrow> db)\<rparr>"

section \<open>Properties of the selection policy\<close>

lemma py_sort_reverse_sorted:
  "sorted_wrt (\<lambda>a b. key b \<le> key a) (py_sort_reverse key xs)"
proof -
  have "sorted (map key (sort_key key (rev xs)))"
    by (rule sorted_sort_key)
  then have "sorted_wrt (\<lambda>a b. key a \<le> key b) (sort_key key (rev xs))"
    by (simp add: sorted_map)
  then have "sorted_wrt (\<lambda>a b. key b \<le> key a) (rev (sort_key key (rev xs)))"
    by (simp add: sorted_wrt_rev)
  then show ?thesis by (simp add: py_sort_reverse_def)
qed

lemma py_sort_reverse_stable:
  "filter (\<lambda>x. key x = c) (py_sort_reverse key xs) = filter (\<lambda>x. key x = c) xs"
proof -
  have "filter (\<lambda>x. key x = c) (sort_key key (rev xs)) = filter (\<lambda>x. key x = c) (rev xs)"
    by (rule sort_key_stable)
  then show ?thesis
    by (simp add: py_sort_reverse_def rev_filter [symmetric])
qed

lemma py_sort_reverse_mset: "mset (py_sort_reverse key xs) = mset xs"
  by (simp add: py_sort_reverse_def)

lemma py_sort_reverse_id:
  assumes "sorted_wrt (\<lambda>a b. key b \<le> key a) xs"
  shows "py_sort_reverse key xs = xs"
proof -
  from assms have "sorted_wrt (\<lambda>a b. key a \<le> key b) (rev xs)"
    by (simp add: sorted_wrt_rev)
  then have "sorted (map key (rev xs))"
    by (simp add: sorted_map)
  then have "sort_key key (rev xs) = rev xs"
    by (rule sort_key_id_if_sorted)
  then show ?thesis by (simp add: py_sort_reverse_def)
qed

lemma py_sort_reverse_sort_key:
  "py_sort_reverse key xs = sort_key (\<lambda>x. - key x) xs"
proof -
  let ?ys = "py_sort_reverse key xs"
  have "sorted (map (\<lambda>x. - key x) ?ys)"
    using py_sort_reverse_sorted [of key xs] by (simp add: sorted_map)
  moreover have "filter (\<lambda>x. - key k = - key x) ?ys = filter (\<lambda>x. - key k = - key x) xs" for k
    using py_sort_reverse_stable [of key "key k" xs] by (simp add: eq_commute)
  ultimately have "sort_key (\<lambda>x. - key x) xs = ?ys"
    by (intro properties_for_sort_key) (simp_all add: py_sort_reverse_mset)
  then show ?thesis by simp
qed

lemma filter_sort_trim_nonneg:
  assumes "0 \<le> max_insights cfg"
  shows "filter_sort_trim cfg xs =
           take (nat (max_insights cfg))
             (py_sort_reverse confidence
                (filter (\<lambda>i. min_confidence_score cfg \<le> confidence i) xs))"
  using assms by (simp add: filter_sort_trim_def py_slice_to_def)

lemma filter_sort_trim_characterised:
  fixes cfg :: settings and xs :: "insight list"
  assumes "0 \<le> max_insights cfg"
  defines "kept \<equiv> filter (\<lambda>i. min_confidence_score cfg \<le> confidence i) xs"
  defines "res \<equiv> filter_sort_trim cfg xs"
  shows "res = spec_select (min_confidence_score cfg) (nat (max_insights cfg)) xs
       \<and> length res = min (nat (max_insights cfg)) (length kept)
       \<and> (\<exists>rest. mset res + mset rest = mset kept
                \<and> (\<forall>a \<in> set res. \<forall>b \<in> set rest. confidence b \<le> confidence a))
       \<and> sorted_wrt (\<lambda>a b. confidence b \<le> confidence a) res
       \<and> (\<forall>c. prefix (filter (\<lambda>i. confidence i = c) res) (filter (\<lambda>i. confidence i = c) kept))
       \<and> (\<forall>i < length res. \<forall>j < length res.
             confidence (res ! j) < confidence (res ! i) \<longrightarrow> i < j)"
proof -
  let ?n = "nat (max_insights cfg)"
  let ?ys = "py_sort_reverse confidence kept"
  have res: "res = take ?n ?ys"
    unfolding res_def kept_def using assms(1) by (rule filter_sort_trim_nonneg)
  have sorted_ys: "sorted_wrt (\<lambda>a b. confidence b \<le> confidence a) ?ys"
    by (rule py_sort_reverse_sorted)
  have sorted_res: "sorted_wrt (\<lambda>a b. confidence b \<le> confidence a) res"
    unfolding res using sorted_ys by (rule sorted_wrt_take)
  have c1: "res = spec_select (min_confidence_score cfg) ?n xs"
    by (simp add: res spec_select_def kept_def py_sort_reverse_sort_key)
  have "length ?ys = length kept"
    using py_sort_reverse_mset [of confidence kept] by (metis size_mset)
  then have c2: "length res = min ?n (length kept)"
    by (simp add: res)
  have "mset res + mset (drop ?n ?ys) = mset kept"
    unfolding res by (metis append_take_drop_id mset_append py_sort_reverse_mset)
  moreover have "\<forall>a \<in> set res. \<forall>b \<in> set (drop ?n ?ys). confidence b \<le> confidence a"
    using sorted_ys unfolding res
    by (metis append_take_drop_id sorted_wrt_append)
  ultimately have c3: "\<exists>rest. mset res + mset rest = mset kept
                \<and> (\<forall>a \<in> set res. \<forall>b \<in> set rest. confidence b \<le> confidence a)"
    by blast
  have c5: "prefix (filter (\<lambda>i. confidence i = c) res) (filter (\<lambda>i. confidence i = c) kept)" for c
  proof -
    have "prefix res ?ys"
      unfolding res by (rule take_is_prefix)
    then have "prefix (filter (\<lambda>i. confidence i = c) res) (filter (\<lambda>i. confidence i = c) ?ys)"
      by (rule filter_mono_prefix)
    then show ?thesis by (simp add: py_sort_reverse_stable)
  qed
  have c6: "i < j" if "i < length res" "j < length res"
       "confidence (res ! j) < confidence (res ! i)" for i j
  proof (rule ccontr)
    assume "\<not> i < j"
    then consider "j = i" | "j < i" by fastforce
    then show False
    proof cases
      case 1
      with that show False by simp
    next
      case 2
      from sorted_wrt_nth_less [OF sorted_res 2 that(1)] that(3) show False by simp
    qed
  qed
  from c1 c2 c3 sorted_res c5 c6 show ?thesis by blast
qed

lemma demo_selection:
  "filter_sort_trim demo_settings demo_findings = [finding ''c'' (95 / 100), finding ''a'' (8 / 10)]"
  by (simp add: filter_sort_trim_def demo_settings_def demo_findings_def finding_def
      py_slice_to_def py_sort_reverse_def)

text \<open>
  Claim C7. For a non-negative \<open>max_insights\<close>, selecting from an already selected list
  changes nothing.
\<close>

theorem filter_sort_trim_idem:
  assumes "0 \<le> max_insights cfg"
  shows "filter_sort_trim cfg (filter_sort_trim cfg xs) = filter_sort_trim cfg xs"
proof -
  let ?n = "nat (max_insights cfg)"
  let ?P = "\<lambda>i. min_confidence_score cfg \<le> confidence i"
  let ?res = "filter_sort_trim cfg xs"
  have res: "?res = take ?n (py_sort_reverse confidence (filter ?P xs))"
    using assms by (rule filter_sort_trim_nonneg)
  have "set ?res \<subseteq> set (py_sort_reverse confidence (filter ?P xs))"
    unfolding res by (rule set_take_subset)
  also have "\<dots> = set (filter ?P xs)"
    using py_sort_reverse_mset [of confidence "filter ?P xs"] by (metis set_mset_mset)
  finally have "\<forall>i \<in> set ?res. ?P i" by auto
  then have keep: "filter ?P ?res = ?res" by simp
  have "sorted_wrt (\<lambda>a b. confidence b \<le> confidence a) ?res"
    unfolding res by (rule sorted_wrt_take) (rule py_sort_reverse_sorted)
  then have sort: "py_sort_reverse confidence ?res = ?res"
    by (rule py_sort_reverse_id)
  have "length ?res \<le> ?n" by (simp add: res)
  then have trim: "take ?n ?res = ?res" by simp
  have "filter_sort_trim cfg ?res = take ?n (py_sort_reverse confidence (filter ?P ?res))"
    using assms by (rule filter_sort_trim_nonneg)
  then show ?thesis by (simp add: keep sort trim)
qed

theorem filter_sort_trim_idem_witness:
  "0 \<le> max_insights demo_settings
   \<and> filter_sort_trim demo_settings (filter_sort_trim demo_settings demo_findings)
       = [finding ''c'' (95 / 100), finding ''a'' (8 / 10)]"
proof -
  have h: "0 \<le> max_insights demo_settings"
    by (simp add: demo_settings_def)
  from filter_sort_trim_idem [OF h, of demo_findings] demo_selection
  have "filter_sort_trim demo_settings (filter_sort_trim demo_settings demo_findings)
       = [finding ''c'' (95 / 100), finding ''a'' (8 / 10)]"
    by (rule trans)
  with h show ?thesis by blast
qed

section \<open>Properties of the insight engine\<close>

lemma enumerate_drop:
  "k \<le> length xs \<Longrightarrow> enumerate k (drop k xs) = map (\<lambda>j. (j, xs ! j)) [k..<length xs]"
  by (rule nth_equalityI) (simp_all add: nth_enumerate_eq)

lemma concat_map_if:
  "concat (map (\<lambda>j. if P j then [f j] else []) js) = map f (filter P js)"
  by (induction js) simp_all

lemma pattern_pair_if:
  "pattern_pair df i c1 j c2 =
     (if float_gt (map_option abs (corr df i j)) 0.7
      then [\<lparr>title = ''Strong '' @ (if the (corr df i j) > 0 then ''Positive'' else ''Negative'')
                          @ '' Correlation'',
             confidence = pattern_confidence df i j, category = ''pattern'',
             affected_columns = [c1, c2], affected_rows = []\<rparr>]
      else [])"
  by (simp add: pattern_pair_def float_gt_def pattern_confidence_def split: option.splits)

lemma generate_pattern_insights_index:
  "generate_pattern_insights df =
     concat (map (\<lambda>i. concat (map (\<lambda>j. pattern_pair df i (numeric df ! i) j (numeric df ! j))
                                 [i + 1..<length (numeric df)]))
               [0..<length (numeric df)])"
proof -
  let ?xs = "numeric df"
  let ?n = "length ?xs"
  have outer: "enumerate 0 ?xs = map (\<lambda>i. (i, ?xs ! i)) [0..<?n]"
    using enumerate_drop [of 0 ?xs] by simp
  have inner: "enumerate (Suc i) (drop (Suc i) ?xs) = map (\<lambda>j. (j, ?xs ! j)) [Suc i..<?n]"
    if "i < ?n" for i
    using that by (intro enumerate_drop) simp
  have loops: "concat (map (\<lambda>(i, c1).
             concat (map (\<lambda>(j, c2). pattern_pair df i c1 j c2)
                       (enumerate (Suc i) (drop (Suc i) ?xs))))
             (enumerate 0 ?xs))
     = concat (map (\<lambda>i. concat (map (\<lambda>j. pattern_pair df i (?xs ! i) j (?xs ! j))
                                 [Suc i..<?n])) [0..<?n])"
    unfolding outer map_map comp_def prod.case
    by (rule arg_cong [where f = concat], rule map_cong) (simp_all add: inner comp_def)
  show ?thesis
  proof (cases "1 < ?n")
    case True
    then show ?thesis by (simp add: generate_pattern_insights_def Let_def loops)
  next
    case False
    then have "?xs = [] \<or> (\<exists>x. ?xs = [x])"
      by (cases ?xs) auto
    then show ?thesis
      by (auto simp: generate_pattern_insights_def Let_def)
  qed
qed

lemma generate_pattern_insights_pairs:
  "generate_pattern_insights df =
     map (\<lambda>(i, j). \<lparr>title = ''Strong '' @ (if the (corr df i j) > 0 then ''Positive'' else ''Negative'')
                          @ '' Correlation'',
             confidence = pattern_confidence df i j, category = ''pattern'',
             affected_columns = [numeric df ! i, numeric df ! j], affected_rows = []\<rparr>)
       (strong_pairs df)"
  unfolding generate_pattern_insights_index pattern_pair_if concat_map_if
    strong_pairs_def index_pairs_def
  by (simp add: filter_concat map_concat filter_map comp_def)


lemma index_pairs_set:
  "set (index_pairs n) = {(i, j). i < j \<and> j < n}"
proof -
  have "\<exists>x \<in> {0..<n}. (a, b) \<in> Pair x ` {Suc x..<n}" if "a < b" "b < n" for a b
    using that by (intro bexI [of _ a]) auto
  then show ?thesis by (auto simp: index_pairs_def)
qed

lemma index_pairs_distinct: "distinct (index_pairs n)"
  unfolding index_pairs_def
  by (rule distinct_concat) (auto simp: distinct_map inj_on_def dest: arg_cong [where f = length])

lemma strong_pairs_set:
  "set (strong_pairs df) =
     {(i, j). i < j \<and> j < length (numeric df) \<and> (\<exists>v. corr df i j = Some v \<and> 0.7 < \<bar>v\<bar>)}"
  by (auto simp: strong_pairs_def index_pairs_set float_gt_def split: option.splits)

text \<open>
  Claim C8. The pattern stage emits exactly one insight for each unordered pair of numeric
  columns whose correlation has magnitude above 0.7, in the order of the pairs. The insight
  has category \<open>pattern\<close>, names the two columns and has the magnitude capped at 0.9 as
  its confidence, so a pair of magnitude 1 gives confidence 0.9. With fewer than two
  numeric columns the stage emits nothing.
\<close>

theorem pattern_stage_strong_pairs:
  "map (\<lambda>x. (category x, affected_columns x, confidence x)) (generate_pattern_insights df)
     = map (\<lambda>(i, j). (''pattern'', [numeric df ! i, numeric df ! j], pattern_confidence df i j))
         (strong_pairs df)
   \<and> distinct (strong_pairs df)
   \<and> set (strong_pairs df) =
       {(i, j). i < j \<and> j < length (numeric df) \<and> (\<exists>v. corr df i j = Some v \<and> 0.7 < \<bar>v\<bar>)}
   \<and> (\<forall>i j v. corr df i j = Some v \<longrightarrow> pattern_confidence df i j = min 0.9 \<bar>v\<bar>)
   \<and> (length (numeric df) < 2 \<longrightarrow> generate_pattern_insights df = [])
   \<and> (\<forall>i j v. i < j \<and> j < length (numeric df) \<and> corr df i j = Some v \<and> \<bar>v\<bar> = 1
         \<longrightarrow> (\<exists>x \<in> set (generate_pattern_insights df).
                category x = ''pattern''
              \<and> affected_columns x = [numeric df ! i, numeric df ! j]
              \<and> confidence x = 0.9))"
proof -
  have c1: "map (\<lambda>x. (category x, affected_columns x, confidence x)) (generate_pattern_insights df)
     = map (\<lambda>(i, j). (''pattern'', [numeric df ! i, numeric df ! j], pattern_confidence df i j))
         (strong_pairs df)"
    by (simp add: generate_pattern_insights_pairs comp_def case_prod_unfold)
  have c2: "distinct (strong_pairs df)"
    by (simp add: strong_pairs_def index_pairs_distinct)
  have c4: "pattern_confidence df i j = min 0.9 \<bar>v\<bar>" if "corr df i j = Some v" for i j v
    using that by (simp add: pattern_confidence_def)
  have c5: "generate_pattern_insights df = []" if "length (numeric df) < 2"
    using that by (simp add: generate_pattern_insights_def Let_def)
  have c6: "\<exists>x \<in> set (generate_pattern_insights df).
                category x = ''pattern''
              \<and> affected_columns x = [numeric df ! i, numeric df ! j]
              \<and> confidence x = 0.9"
    if "i < j" "j < length (numeric df)" "corr df i j = Some v" "\<bar>v\<bar> = 1" for i j v
  proof -
    from that have "(i, j) \<in> set (strong_pairs df)"
      by (simp add: strong_pairs_set)
    then have "(''pattern'', [numeric df ! i, numeric df ! j], pattern_confidence df i j)
        \<in> set (map (\<lambda>x. (category x, affected_columns x, confidence x))
                 (generate_pattern_insights df))"
      unfolding c1 by force
    moreover have "pattern_confidence df i j = 0.9"
      using that by (simp add: pattern_confidence_def)
    ultimately show ?thesis by auto
  qed
  have c3: "set (strong_pairs df) =
       {(i, j). i < j \<and> j < length (numeric df) \<and> (\<exists>v. corr df i j = Some v \<and> 0.7 < \<bar>v\<bar>)}"
    by (rule strong_pairs_set)
  from c4 have c4': "\<forall>i j v. corr df i j = Some v \<longrightarrow> pattern_confidence df i j = min 0.9 \<bar>v\<bar>"
    by (intro allI impI)
  from c5 have c5': "length (numeric df) < 2 \<longrightarrow> generate_pattern_insights df = []"
    by (intro impI)
  have c6': "\<forall>i j v. i < j \<and> j < length (numeric df) \<and> corr df i j = Some v \<and> \<bar>v\<bar> = 1
         \<longrightarrow> (\<exists>x \<in> set (generate_pattern_insights df).
                category x = ''pattern''
              \<and> affected_columns x = [numeric df ! i, numeric df ! j]
              \<and> confidence x = 0.9)"
  proof (intro allI impI)
    fix i j v
    assume "i < j \<and> j < length (numeric df) \<and> corr df i j = Some v \<and> \<bar>v\<bar> = 1"
    then have "i < j" "j < length (numeric df)" "corr df i j = Some v" "\<bar>v\<bar> = 1"
      by simp_all
    then show "\<exists>x \<in> set (generate_pattern_insights df).
                category x = ''pattern''
              \<and> affected_columns x = [numeric df ! i, numeric df ! j]
              \<and> confidence x = 0.9"
      by (rule c6)
  qed
  from c1 c2 c3 c4' c5' c6' show ?thesis by (intro conjI)
qed

lemma demo_strong_pairs: "strong_pairs demo_frame = [(0, 1)]"
  by (simp add: strong_pairs_def index_pairs_def demo_frame_def float_gt_def upt_rec)

theorem pattern_stage_strong_pairs_witness:
  "(0::nat) < 1 \<and> 1 < length (numeric demo_frame) \<and> corr demo_frame 0 1 = Some 1
   \<and> \<bar>1::real\<bar> = 1
   \<and> map (\<lambda>x. (category x, affected_columns x, confidence x))
        (generate_pattern_insights demo_frame) = [(''pattern'', [''x'', ''y''], 0.9)]
   \<and> (\<exists>x \<in> set (generate_pattern_insights demo_frame).
         category x = ''pattern'' \<and> affected_columns x = [''x'', ''y''] \<and> confidence x = 0.9)"
proof -
  have h: "(0::nat) < 1 \<and> 1 < length (numeric demo_frame) \<and> corr demo_frame 0 1 = Some 1
     \<and> \<bar>1::real\<bar> = 1"
    by (simp add: demo_frame_def)
  note inst = pattern_stage_strong_pairs [of demo_frame]
  from inst have "map (\<lambda>x. (category x, affected_columns x, confidence x))
        (generate_pattern_insights demo_frame)
      = map (\<lambda>(i, j). (''pattern'', [numeric demo_frame ! i, numeric demo_frame ! j],
                        pattern_confidence demo_frame i j)) (strong_pairs demo_frame)"
    by (rule conjunct1)
  then have a: "map (\<lambda>x. (category x, affected_columns x, confidence x))
        (generate_pattern_insights demo_frame) = [(''pattern'', [''x'', ''y''], 0.9)]"
    unfolding demo_strong_pairs by (simp add: demo_frame_def pattern_confidence_def)
  from inst have perfect: "\<forall>i j v. i < j \<and> j < length (numeric demo_frame)
         \<and> corr demo_frame i j = Some v \<and> \<bar>v\<bar> = 1
         \<longrightarrow> (\<exists>x \<in> set (generate_pattern_insights demo_frame).
                category x = ''pattern''
              \<and> affected_columns x = [numeric demo_frame ! i, numeric demo_frame ! j]
              \<and> confidence x = 0.9)"
    by (elim conjE)
  from perfect [rule_format, of 0 1 1, OF h]
  have "\<exists>x \<in> set (generate_pattern_insights demo_frame).
         category x = ''pattern''
       \<and> affected_columns x = [numeric demo_frame ! 0, numeric demo_frame ! 1]
       \<and> confidence x = 0.9" .
  then have b: "\<exists>x \<in> set (generate_pattern_insights demo_frame).
         category x = ''pattern'' \<and> affected_columns x = [''x'', ''y''] \<and> confidence x = 0.9"
    by (simp add: demo_frame_def)
  from h a b show ?thesis by (intro conjI) (elim conjE, assumption)+
qed

lemma statistical_column_confidence:
  "x \<in> set (statistical_column df col) \<Longrightarrow> confidence x = 0.8 \<or> confidence x = 0.75"
  by (auto simp: statistical_column_def Let_def split: if_splits)

lemma quality_column_confidence:
  "quality_column n item = Inr found \<Longrightarrow> x \<in> set found \<Longrightarrow> confidence x = 0.9"
  by (auto simp: quality_column_def Let_def split: prod.splits if_splits)

lemma quality_loop_confidence:
  "quality_loop n items = Inr found \<Longrightarrow> x \<in> set found \<Longrightarrow> confidence x = 0.9"
proof (induction items arbitrary: found)
  case Nil
  then show ?case by simp
next
  case (Cons item items)
  from Cons.prems(1) obtain here rest where
    here: "quality_column n item = Inr here" and rest: "quality_loop n items = Inr rest"
    and found: "found = here @ rest"
    by (auto split: sum.splits)
  from Cons.prems(2) found consider "x \<in> set here" | "x \<in> set rest" by auto
  then show ?case
  proof cases
    case 1
    with here show ?thesis by (rule quality_column_confidence)
  next
    case 2
    with rest show ?thesis by (rule Cons.IH)
  qed
qed

lemma pattern_pair_confidence:
  "x \<in> set (pattern_pair df i c1 j c2) \<Longrightarrow> 0.7 < confidence x \<and> confidence x \<le> 0.9"
  by (auto simp: pattern_pair_def split: option.splits if_splits)

lemma overview_confidence:
  "x \<in> set (generate_overview_insights df) \<Longrightarrow> confidence x = 0.95"
  by (simp add: generate_overview_insights_def)

lemma statistical_confidence:
  "x \<in> set (generate_statistical_insights df) \<Longrightarrow> confidence x = 0.8 \<or> confidence x = 0.75"
  by (auto simp: generate_statistical_insights_def dest: statistical_column_confidence)

lemma pattern_confidence_range:
  "x \<in> set (generate_pattern_insights df) \<Longrightarrow> 0.7 < confidence x \<and> confidence x \<le> 0.9"
  unfolding generate_pattern_insights_index
  by (auto dest: pattern_pair_confidence)

lemma quality_confidence:
  assumes "generate_quality_insights df = Inr found" "x \<in> set found"
  shows "confidence x = 0.9 \<or> confidence x = 0.95"
proof -
  from assms(1) obtain missing where
    loop: "quality_loop (nrows df) (isnull_sum df) = Inr missing"
    and found: "found = missing \<or> (\<exists>d. confidence d = 0.95 \<and> found = missing @ [d])"
    by (auto simp: generate_quality_insights_def Let_def split: sum.splits if_splits)
  from found assms(2) have "x \<in> set missing \<or> confidence x = 0.95" by auto
  with loop show ?thesis by (auto dest: quality_loop_confidence)
qed

lemma quality_found_confidence:
  assumes "x \<in> set (quality_found df)"
  shows "confidence x = 0.9 \<or> confidence x = 0.95"
proof (cases "generate_quality_insights df")
  case (Inl failure)
  with assms show ?thesis by (simp add: quality_found_def)
next
  case (Inr found)
  with assms have "x \<in> set found" by (simp add: quality_found_def)
  with Inr show ?thesis by (rule quality_confidence)
qed

text \<open>
  Claim C10. Every insight of the four stages has a confidence above 0.7: 0.95 for the
  overview, 0.8 or 0.75 for the statistical stage, between 0.7 (excluded) and 0.9 for the
  pattern stage, 0.9 or 0.95 for the quality stage whenever it returns (on a frame with
  columns and no rows it raises and produces no insight). Under the default settings the
  filtering step keeps all of them.
\<close>

theorem stage_confidence_above_threshold:
  "(\<forall>x \<in> set (generate_overview_insights df). confidence x = 0.95)
   \<and> (\<forall>x \<in> set (generate_statistical_insights df). confidence x = 0.8 \<or> confidence x = 0.75)
   \<and> (\<forall>x \<in> set (generate_pattern_insights df). 0.7 < confidence x \<and> confidence x \<le> 0.9)
   \<and> (\<forall>found. generate_quality_insights df = Inr found \<longrightarrow>
         (\<forall>x \<in> set found. confidence x = 0.9 \<or> confidence x = 0.95))
   \<and> (\<forall>x \<in> set (stage_insights df). 0.7 < confidence x)
   \<and> filter (\<lambda>i. confidence i \<ge> min_confidence_score default_settings) (stage_insights df)
       = stage_insights df"
proof -
  have all: "0.7 < confidence x" if "x \<in> set (stage_insights df)" for x
    using that overview_confidence [of x df] statistical_confidence [of x df]
      pattern_confidence_range [of x df] quality_found_confidence [of x df]
    by (auto simp: stage_insights_def)
  have "\<forall>x \<in> set (stage_insights df). min_confidence_score default_settings \<le> confidence x"
    using all by (fastforce simp: default_settings_def)
  then have "filter (\<lambda>i. confidence i \<ge> min_confidence_score default_settings) (stage_insights df)
       = stage_insights df"
    by simp
  with all overview_confidence statistical_confidence pattern_confidence_range quality_confidence
  show ?thesis by (intro conjI ballI allI impI) blast+
qed

lemma demo_pattern_insights:
  "generate_pattern_insights demo_frame =
     [\<lparr>title = ''Strong Positive Correlation'', confidence = 0.9, category = ''pattern'',
       affected_columns = [''x'', ''y''], affected_rows = []\<rparr>]"
  unfolding generate_pattern_insights_pairs demo_strong_pairs
  by (simp add: pattern_confidence_def demo_frame_def)

lemma demo_statistical_insights:
  "generate_statistical_insights demo_frame =
     [\<lparr>title = ''High Variability in x'', confidence = 0.8, category = ''statistical'',
       affected_columns = [''x''], affected_rows = []\<rparr>,
      \<lparr>title = ''Outliers Detected in x'', confidence = 0.75, category = ''anomaly'',
       affected_columns = [''x''], affected_rows = [3]\<rparr>,
      \<lparr>title = ''High Variability in y'', confidence = 0.8, category = ''statistical'',
       affected_columns = [''y''], affected_rows = []\<rparr>,
      \<lparr>title = ''Outliers Detected in y'', confidence = 0.75, category = ''anomaly'',
       affected_columns = [''y''], affected_rows = [3]\<rparr>]"
  by code_simp

lemma demo_quality_insights:
  "generate_quality_insights demo_frame = Inr
     [\<lparr>title = ''Missing Data in w'', confidence = 0.9, category = ''data_quality'',
       affected_columns = [''w''], affected_rows = []\<rparr>]"
  by code_simp

lemma demo_overview_insights:
  "generate_overview_insights demo_frame =
     [\<lparr>title = ''Dataset Overview'', confidence = 0.95, category = ''overview'',
       affected_columns = [''x'', ''y'', ''w'', ''label''], affected_rows = []\<rparr>]"
  by (simp add: generate_overview_insights_def demo_frame_def)

theorem stage_confidence_above_threshold_witness:
  "map confidence (stage_insights demo_frame) = [0.95, 0.8, 0.75, 0.8, 0.75, 0.9, 0.9]
   \<and> list_all (\<lambda>x. 0.7 < confidence x) (stage_insights demo_frame)
   \<and> filter (\<lambda>i. confidence i \<ge> min_confidence_score default_settings)
        (stage_insights demo_frame) = stage_insights demo_frame"
proof -
  have confs: "map confidence (stage_insights demo_frame) = [0.95, 0.8, 0.75, 0.8, 0.75, 0.9, 0.9]"
    by (simp add: stage_insights_def demo_overview_insights demo_statistical_insights
        demo_pattern_insights demo_quality_insights quality_found_def)
  note inst = stage_confidence_above_threshold [of demo_frame]
  from inst have "\<forall>x \<in> set (stage_insights demo_frame). 0.7 < confidence x"
    by (elim conjE)
  then have above: "list_all (\<lambda>x. 0.7 < confidence x) (stage_insights demo_frame)"
    by (simp only: list_all_iff)
  from inst have kept: "filter (\<lambda>i. confidence i \<ge> min_confidence_score default_settings)
        (stage_insights demo_frame) = stage_insights demo_frame"
    by (elim conjE)
  from confs above kept show ?thesis by (intro conjI)
qed

section \<open>Properties of the hub\<close>

lemma send_personal_message_result:
  "send_personal_message delivers m msg ws = Inr (m, msg, if delivers ws then {ws} else {})"
  by (simp add: send_personal_message_def send_text_def)

lemma connect_result:
  "connect True delivers m ws file_id =
     Inr (m\<lparr>active_connections := (active_connections m)(file_id \<mapsto>
              insert ws (case active_connections m file_id of None \<Rightarrow> {} | Some s \<Rightarrow> s))\<rparr>,
          Connection_established file_id, if delivers ws then {ws} else {})"
  by (auto simp: connect_def send_personal_message_result Let_def split: option.splits)

text \<open>
  Claim C9. Point-to-point delivery never raises and returns the manager it was given,
  whether or not the handle takes the message. Hence a connection that was accepted is
  registered and \<open>connect\<close> returns normally even when the acknowledgement cannot be
  delivered.
\<close>

theorem send_personal_message_swallows:
  "send_personal_message delivers m msg ws = Inr (m, msg, if delivers ws then {ws} else {})
   \<and> (accepts \<longrightarrow>
        (\<exists>m' receivers.
           connect accepts delivers m ws file_id
             = Inr (m', Connection_established file_id, receivers)
         \<and> active_connections m' =
             (active_connections m)(file_id \<mapsto>
                insert ws (case active_connections m file_id of None \<Rightarrow> {} | Some s \<Rightarrow> s))))"
  by (simp add: send_personal_message_result connect_result)

theorem send_personal_message_swallows_witness:
  "send_personal_message (\<lambda>ws. False) demo_manager (Connection_established ''f'') 8
     = Inr (demo_manager, Connection_established ''f'', {})
   \<and> (\<exists>m' receivers.
         connect True (\<lambda>ws. False) demo_manager 8 ''f''
           = Inr (m', Connection_established ''f'', receivers)
       \<and> active_connections m' ''f'' = Some {7, 8})"
proof -
  note inst = send_personal_message_swallows
    [of "\<lambda>ws. False" demo_manager "Connection_established ''f''" 8 True "''f''"]
  from inst have a: "send_personal_message (\<lambda>ws. False) demo_manager
      (Connection_established ''f'') 8 = Inr (demo_manager, Connection_established ''f'', {})"
    by simp
  from inst obtain m' receivers where
    c: "connect True (\<lambda>ws. False) demo_manager 8 ''f''
           = Inr (m', Connection_established ''f'', receivers)"
    and r: "active_connections m' = (active_connections demo_manager)(''f'' \<mapsto>
                insert 8 (case active_connections demo_manager ''f'' of None \<Rightarrow> {} | Some s \<Rightarrow> s))"
    by blast
  from r have "active_connections m' ''f'' = Some {7, 8}"
    by (auto simp: demo_manager_def)
  with a c show ?thesis by blast
qed

lemma connect_no_empty_entry:
  assumes "no_empty_entry m" "connect accepts delivers m ws file_id = Inr (m', msg, rs)"
  shows "no_empty_entry m'"
proof -
  from assms(2) have acc: accepts
    by (auto simp: connect_def split: if_splits)
  with assms(2) have "m' = m\<lparr>active_connections := (active_connections m)(file_id \<mapsto>
              insert ws (case active_connections m file_id of None \<Rightarrow> {} | Some s \<Rightarrow> s))\<rparr>"
    by (simp add: connect_result)
  with assms(1) show ?thesis
    by (auto simp: no_empty_entry_def ran_def split: if_splits)
qed

lemma disconnect_no_empty_entry:
  assumes "no_empty_entry m"
  shows "no_empty_entry (disconnect m ws file_id)"
  using assms
  by (auto simp: no_empty_entry_def disconnect_def Let_def ran_def split: option.splits if_splits)

text \<open>
  Claim C6. \<open>connect\<close> and \<open>disconnect\<close> keep the registry free of empty entries
  (the two lemmas above), but fan-out delivery does not: when the only subscriber of a
  subject fails, \<open>broadcast_to_file\<close> leaves the subject registered with an empty set,
  where \<open>disconnect\<close> of the same handle deletes the entry.
\<close>

theorem broadcast_to_file_leaves_empty_entry:
  "no_empty_entry demo_manager
   \<and> broadcast_to_file (\<lambda>ws. False) (\<lambda>msg. False) demo_manager ''f''
         (Status_update ''f'' ''processing'' '''' 0)
       = Inr (\<lparr>active_connections = [''f'' \<mapsto> {}]\<rparr>, Status_update ''f'' ''processing'' '''' 0, {})
   \<and> \<not> no_empty_entry \<lparr>active_connections = [''f'' \<mapsto> {}]\<rparr>
   \<and> disconnect demo_manager 7 ''f'' = \<lparr>active_connections = Map.empty\<rparr>"
  by (auto simp: no_empty_entry_def demo_manager_def broadcast_to_file_def send_text_def
      disconnect_def Let_def ran_def)

section \<open>Properties of a run\<close>

lemma broadcast_to_file_result:
  "broadcast_to_file d (interrupted e) m f msg =
     (if blocked e (listening m f) msg then Inl (Exn ''Set changed size during iteration'')
      else Inr (hub_after d m f, msg, receivers_of d m f))"
proof -
  have "subscribers - Set.filter (\<lambda>c. send_text d c msg \<noteq> Inr ()) subscribers = Set.filter d subscribers"
    for subscribers
    by (auto simp: send_text_def)
  then show ?thesis
    by (simp add: broadcast_to_file_def hub_after_def receivers_of_def blocked_def listening_def
        Let_def split: option.splits)
qed

lemma hub_call_status:
  "hub_call e (\<lambda>d c m. send_status_update d c m f st tx p) s
     = (if blocked e (listening (manager s) f) (Status_update f st tx p)
        then (Inl (Exn ''Set changed size during iteration''), s)
        else (Inr (), sent e f (Status_update f st tx p) s))"
  by (simp add: hub_call_def send_status_update_def broadcast_to_file_result sent_def
      receivers_at_def)

lemma hub_call_progress:
  "hub_call e (\<lambda>d c m. send_insight_progress d c m f step 6 n found) s
     = (if blocked e (listening (manager s) f) (progress_message f step n found)
        then (Inl (Exn ''Set changed size during iteration''), s)
        else (Inr (), sent e f (progress_message f step n found) s))"
  by (simp add: hub_call_def send_insight_progress_def broadcast_to_file_result sent_def
      receivers_at_def progress_message_def Let_def)

lemma hub_call_complete:
  "hub_call e (\<lambda>d c m. send_insights_complete d c m f n t) s
     = (if blocked e (listening (manager s) f) (Insights_complete f n t)
        then (Inl (Exn ''Set changed size during iteration''), s)
        else (Inr (), sent e f (Insights_complete f n t) s))"
  by (simp add: hub_call_def send_insights_complete_def broadcast_to_file_result sent_def
      receivers_at_def)

lemma sent_fields [simp]:
  "trace (sent e f msg s) = trace s @ [Sent msg (receivers_at e f s)]"
  "database (sent e f msg s) = database s"
  "pending (sent e f msg s) = pending s"
  "session_failed (sent e f msg s) = session_failed s"
  by (simp_all add: sent_def)

lemma fold_sent_fields [simp]:
  "database (fold (sent e f) ms s) = database s"
  "pending (fold (sent e f) ms s) = pending s"
  "session_failed (fold (sent e f) ms s) = session_failed s"
  by (induction ms arbitrary: s) simp_all

lemma sent_update:
  "sent e f msg (s\<lparr>pending := p, session_failed := b\<rparr>)
     = (sent e f msg s)\<lparr>pending := p, session_failed := b\<rparr>"
  by (simp add: sent_def receivers_at_def)

lemma fold_sent_update:
  "fold (sent e f) ms (s\<lparr>pending := p, session_failed := b\<rparr>)
     = (fold (sent e f) ms s)\<lparr>pending := p, session_failed := b\<rparr>"
  by (induction ms arbitrary: s) (simp_all add: sent_update)

lemma audible_update [simp]:
  "audible e f (s\<lparr>pending := p, session_failed := b\<rparr>) = audible e f s"
  by (rule ext) (simp add: audible_def fold_sent_update)

lemma fold_sent_trace:
  "map forget (trace (fold (sent e f) ms s)) = map forget (trace s) @ delivered ms"
  by (induction ms arbitrary: s) (simp_all add: delivered_def)

lemma raise_of_None: "(raise_of e l msg = None) = (\<not> blocked e l msg)"
  by (simp add: raise_of_def)

lemma raise_of_Some:
  "(raise_of e l msg = Some c) = (blocked e l msg \<and> c = ''Set changed size during iteration'')"
  by (auto simp: raise_of_def)

lemma failure_of_None:
  "failure_of (stage_result e st df) = None
     \<Longrightarrow> stage_result e st df = Inr (stage_value e st df)"
  by (simp add: failure_of_def stage_value_def split: sum.splits exn.splits)

lemma failure_of_Some: "failure_of r = Some c \<Longrightarrow> r = Inl (Exn c)"
  by (simp add: failure_of_def split: sum.splits exn.splits)

lemma handled_before:
  "handled e l f db r broken (xs @ ys) c =
     (case handled e l f db r broken ys c of (res, tr, db') \<Rightarrow> (res, xs @ tr, db'))"
  by (simp add: handled_def Let_def)

lemma except_block_observed:
  assumes "pending s = Some r"
  shows "(fst (except_block e f c s), map forget (trace (snd (except_block e f c s))),
          database (snd (except_block e f c s)))
     = handled e (listening (manager s) f) f (database s) r (session_failed s)
         (map forget (trace s)) c"
  using assms
  by (simp add: except_block_def and_then_def assign_def db_commit_def outcome_def
      hub_call_status handled_def Let_def split: option.splits)

lemma run_observed_alt:
  "run_observed e f s =
     (fst (generate_insights_with_progress e f s),
      drop (length (trace s))
        (map forget (trace (snd (generate_insights_with_progress e f s)))),
      database (snd (generate_insights_with_progress e f s)))"
  by (simp add: run_observed_def run_effects_def drop_map)

lemma db_close_fields [simp]:
  "fst (db_close x) = fst x"
  "trace (snd (db_close x)) = trace (snd x)"
  "database (snd (db_close x)) = database (snd x)"
  by (simp_all add: db_close_def split: prod.splits)

lemma run_handles_failure:
  assumes "session_raises e = None" "database s f = Some r"
    and "try_block e f (filepath r) (s\<lparr>pending := Some r, session_failed := False\<rparr>)
           = (Inl (Exn c), s')"
    and "pending s' = Some r'" "listening (manager s') f = l"
    and "map forget (trace s') = map forget (trace s) @ before"
  shows "run_observed e f s = handled e l f (database s') r' (session_failed s') before c"
proof -
  have run: "generate_insights_with_progress e f s = db_close (except_block e f c s')"
    using assms(1-3) by (simp add: generate_insights_with_progress_def)
  obtain res tr db' where
    h: "handled e l f (database s') r' (session_failed s') before c = (res, tr, db')"
    by (cases "handled e l f (database s') r' (session_failed s') before c")
  from except_block_observed [OF assms(4), of e f c]
  have "(fst (except_block e f c s'), map forget (trace (snd (except_block e f c s'))),
         database (snd (except_block e f c s')))
          = (res, map forget (trace s) @ tr, db')"
    by (simp add: assms(5,6) handled_before h)
  then show ?thesis
    unfolding run_observed_alt run db_close_fields h by simp
qed

lemmas try_defs = try_block_def and_then_def outcome_def run_stage_def assign_def db_commit_def
  hub_call_status hub_call_progress hub_call_complete announcement_messages_def
  early_messages_def raise_at_def audible_def raise_of_None raise_of_Some Let_def

lemma try_block_stops_at_start:
  assumes "parse_file e path = Inr df"
    "raise_at e (audible e f s) (announcement_messages e f df) 0 = Some c"
  shows "try_block e f path s =
     (Inl (Exn c), fold (sent e f) (take 0 (announcement_messages e f df)) s)"
  using assms by (simp add: try_defs)

lemma try_block_stops_at_parsing:
  assumes "parse_file e path = Inr df"
    "raise_at e (audible e f s) (announcement_messages e f df) 0 = None"
    "raise_at e (audible e f s) (announcement_messages e f df) 1 = Some c"
  shows "try_block e f path s =
     (Inl (Exn c), fold (sent e f) (take 1 (announcement_messages e f df)) s)"
  using assms by (simp add: try_defs)

lemma try_block_stops_at_validating:
  assumes "parse_file e path = Inr df"
    "raise_at e (audible e f s) (announcement_messages e f df) 0 = None"
    "raise_at e (audible e f s) (announcement_messages e f df) 1 = None"
    "raise_at e (audible e f s) (announcement_messages e f df) 2 = Some c"
  shows "try_block e f path s =
     (Inl (Exn c), fold (sent e f) (take 2 (announcement_messages e f df)) s)"
  using assms by (simp add: try_defs)

lemma try_block_stops_at_overview:
  assumes "parse_file e path = Inr df"
    "raise_at e (audible e f s) (announcement_messages e f df) 0 = None"
    "raise_at e (audible e f s) (announcement_messages e f df) 1 = None"
    "raise_at e (audible e f s) (announcement_messages e f df) 2 = None"
    "raise_at e (audible e f s) (announcement_messages e f df) 3 = Some c"
  shows "try_block e f path s =
     (Inl (Exn c), fold (sent e f) (take 3 (announcement_messages e f df)) s)"
  using assms by (simp add: try_defs)

lemma try_block_stops_at_overview_stage:
  assumes "parse_file e path = Inr df"
    "raise_at e (audible e f s) (announcement_messages e f df) 0 = None"
    "raise_at e (audible e f s) (announcement_messages e f df) 1 = None"
    "raise_at e (audible e f s) (announcement_messages e f df) 2 = None"
    "raise_at e (audible e f s) (announcement_messages e f df) 3 = None"
    "failure_of (stage_result e Overview df) = Some c"
  shows "try_block e f path s =
     (Inl (Exn c), fold (sent e f) (take 4 (announcement_messages e f df)) s)"
proof -
  from assms(6) have s4: "stage_result e Overview df = Inl (Exn c)"
    by (rule failure_of_Some)
  from assms(1) assms(2) assms(3) assms(4) assms(5) s4 show ?thesis
    by (simp add: try_defs)
qed

lemma try_block_stops_at_overview_done:
  assumes "parse_file e path = Inr df"
    "raise_at e (audible e f s) (announcement_messages e f df) 0 = None"
    "raise_at e (audible e f s) (announcement_messages e f df) 1 = None"
    "raise_at e (audible e f s) (announcement_messages e f df) 2 = None"
    "raise_at e (audible e f s) (announcement_messages e f df) 3 = None"
    "failure_of (stage_result e Overview df) = None"
    "raise_at e (audible e f s) (announcement_messages e f df) 4 = Some c"
  shows "try_block e f path s =
     (Inl (Exn c), fold (sent e f) (take 4 (announcement_messages e f df)) s)"
proof -
  from assms(6) have s4: "stage_result e Overview df = Inr (stage_value e Overview df)"
    by (rule failure_of_None)
  from assms(1) assms(2) assms(3) assms(4) assms(5) assms(7) s4 show ?thesis
    by (simp add: try_defs)
qed

lemma try_block_stops_at_statistical:
  assumes "parse_file e path = Inr df"
    "raise_at e (audible e f s) (announcement_messages e f df) 0 = None"
    "raise_at e (audible e f s) (announcement_messages e f df) 1 = None"
    "raise_at e (audible e f s) (announcement_messages e f df) 2 = None"
    "raise_at e (audible e f s) (announcement_messages e f df) 3 = None"
    "failure_of (stage_result e Overview df) = None"
    "raise_at e (audible e f s) (announcement_messages e f df) 4 = None"
    "raise_at e (audible e f s) (announcement_messages e f df) 5 = Some c"
  shows "try_block e f path s =
     (Inl (Exn c), fold (sent e f) (take 5 (announcement_messages e f df)) s)"
proof -
  from assms(6) have s4: "stage_result e Overview df = Inr (stage_value e Overview df)"
    by (rule failure_of_None)
  from assms(1) assms(2) assms(3) assms(4) assms(5) assms(7) assms(8) s4 show ?thesis
    by (simp add: try_defs)
qed

lemma try_block_stops_at_statistical_stage:
  assumes "parse_file e path = Inr df"
    "raise_at e (audible e f s) (announcement_messages e f df) 0 = None"
    "raise_at e (audible e f s) (announcement_messages e f df) 1 = None"
    "raise_at e (audible e f s) (announcement_messages e f df) 2 = None"
    "raise_at e (audible e f s) (announcement_messages e f df) 3 = None"
    "failure_of (stage_result e Overview df) = None"
    "raise_at e (audible e f s) (announcement_messages e f df) 4 = None"
    "raise_at e (audible e f s) (announcement_messages e f df) 5 = None"
    "failure_of (stage_result e Statistical df) = Some c"
  shows "try_block e f path s =
     (Inl (Exn c), fold (sent e f) (take 6 (announcement_messages e f df)) s)"
proof -
  from assms(6) have s4: "stage_result e Overview df = Inr (stage_value e Overview df)"
    by (rule failure_of_None)
  from assms(9) have s7: "stage_result e Statistical df = Inl (Exn c)"
    by (rule failure_of_Some)
  from assms(1) assms(2) assms(3) assms(4) assms(5) assms(7) assms(8) s4 s7 show ?thesis
    by (simp add: try_defs)
qed

lemma try_block_stops_at_pattern:
  assumes "parse_file e path = Inr df"
    "raise_at e (audible e f s) (announcement_messages e f df) 0 = None"
    "raise_at e (audible e f s) (announcement_messages e f df) 1 = None"
    "raise_at e (audible e f s) (announcement_messages e f df) 2 = None"
    "raise_at e (audible e f s) (announcement_messages e f df) 3 = None"
    "failure_of (stage_result e Overview df) = None"
    "raise_at e (audible e f s) (announcement_messages e f df) 4 = None"
    "raise_at e (audible e f s) (announcement_messages e f df) 5 = None"
    "failure_of (stage_result e Statistical df) = None"
    "raise_at e (audible e f s) (announcement_messages e f df) 6 = Some c"
  shows "try_block e f path s =
     (Inl (Exn c), fold (sent e f) (take 6 (announcement_messages e f df)) s)"
proof -
  from assms(6) have s4: "stage_result e Overview df = Inr (stage_value e Overview df)"
    by (rule failure_of_None)
  from assms(9) have s7: "stage_result e Statistical df = Inr (stage_value e Statistical df)"
    by (rule failure_of_None)
  from assms(1) assms(2) assms(3) assms(4) assms(5) assms(7) assms(8) assms(10) s4 s7 show ?thesis
    by (simp add: try_defs)
qed

lemma try_block_stops_at_pattern_stage:
  assumes "parse_file e path = Inr df"
    "raise_at e (audible e f s) (announcement_messages e f df) 0 = None"
    "raise_at e (audible e f s) (announcement_messages e f df) 1 = None"
    "raise_at e (audible e f s) (announcement_messages e f df) 2 = None"
    "raise_at e (audible e f s) (announcement_messages e f df) 3 = None"
    "failure_of (stage_result e Overview df) = None"
    "raise_at e (audible e f s) (announcement_messages e f df) 4 = None"
    "raise_at e (audible e f s) (announcement_messages e f df) 5 = None"
    "failure_of (stage_result e Statistical df) = None"
    "raise_at e (audible e f s) (announcement_messages e f df) 6 = None"
    "failure_of (stage_result e Pattern df) = Some c"
  shows "try_block e f path s =
     (Inl (Exn c), fold (sent e f) (take 7 (announcement_messages e f df)) s)"
proof -
  from assms(6) have s4: "stage_result e Overview df = Inr (stage_value e Overview df)"
    by (rule failure_of_None)
  from assms(9) have s7: "stage_result e Statistical df = Inr (stage_value e Statistical df)"
    by (rule failure_of_None)
  from assms(11) have s9: "stage_result e Pattern df = Inl (Exn c)"
    by (rule failure_of_Some)
  from assms(1) assms(2) assms(3) assms(4) assms(5) assms(7) assms(8) assms(10) s4 s7 s9 show ?thesis
    by (simp add: try_defs)
qed

lemma try_block_stops_at_quality:
  assumes "parse_file e path = Inr df"
    "raise_at e (audible e f s) (announcement_messages e f df) 0 = None"
    "raise_at e (audible e f s) (announcement_messages e f df) 1 = None"
    "raise_at e (audible e f s) (announcement_messages e f df) 2 = None"
    "raise_at e (audible e f s) (announcement_messages e f df) 3 = None"
    "failure_of (stage_result e Overview df) = None"
    "raise_at e (audible e f s) (announcement_messages e f df) 4 = None"
    "raise_at e (audible e f s) (announcement_messages e f df) 5 = None"
    "failure_of (stage_result e Statistical df) = None"
    "raise_at e (audible e f s) (announcement_messages e f df) 6 = None"
    "failure_of (stage_result e Pattern df) = None"
    "raise_at e (audible e f s) (announcement_messages e f df) 7 = Some c"
  shows "try_block e f path s =
     (Inl (Exn c), fold (sent e f) (take 7 (announcement_messages e f df)) s)"
proof -
  from assms(6) have s4: "stage_result e Overview df = Inr (stage_value e Overview df)"
    by (rule failure_of_None)
  from assms(9) have s7: "stage_result e Statistical df = Inr (stage_value e Statistical df)"
    by (rule failure_of_None)
  from assms(11) have s9: "stage_result e Pattern df = Inr (stage_value e Pattern df)"
    by (rule failure_of_None)
  from assms(1) assms(2) assms(3) assms(4) assms(5) assms(7) assms(8) assms(10) assms(12) s4 s7 s9 show ?thesis
    by (simp add: try_defs)
qed

lemma try_block_stops_at_quality_stage:
  assumes "parse_file e path = Inr df"
    "raise_at e (audible e f s) (announcement_messages e f df) 0 = None"
    "raise_at e (audible e f s) (announcement_messages e f df) 1 = None"
    "raise_at e (audible e f s) (announcement_messages e f df) 2 = None"
    "raise_at e (audible e f s) (announcement_messages e f df) 3 = None"
    "failure_of (stage_result e Overview df) = None"
    "raise_at e (audible e f s) (announcement_messages e f df) 4 = None"
    "raise_at e (audible e f s) (announcement_messages e f df) 5 = None"
    "failure_of (stage_result e Statistical df) = None"
    "raise_at e (audible e f s) (announcement_messages e f df) 6 = None"
    "failure_of (stage_result e Pattern df) = None"
    "raise_at e (audible e f s) (announcement_messages e f df) 7 = None"
    "failure_of (stage_result e Quality df) = Some c"
  shows "try_block e f path s =
     (Inl (Exn c), fold (sent e f) (take 8 (announcement_messages e f df)) s)"
proof -
  from assms(6) have s4: "stage_result e Overview df = Inr (stage_value e Overview df)"
    by (rule failure_of_None)
  from assms(9) have s7: "stage_result e Statistical df = Inr (stage_value e Statistical df)"
    by (rule failure_of_None)
  from assms(11) have s9: "stage_result e Pattern df = Inr (stage_value e Pattern df)"
    by (rule failure_of_None)
  from assms(13) have s11: "stage_result e Quality df = Inl (Exn c)"
    by (rule failure_of_Some)
  from assms(1) assms(2) assms(3) assms(4) assms(5) assms(7) assms(8) assms(10) assms(12) s4 s7 s9 s11 show ?thesis
    by (simp add: try_defs)
qed

lemma try_block_unparsed_stops_at_start:
  assumes "parse_file e path = Inl (Exn c0)"
    "raise_at e (audible e f s) (early_messages f) 0 = Some c"
  shows "try_block e f path s = (Inl (Exn c), fold (sent e f) (take 0 (early_messages f)) s)"
  using assms by (simp add: try_defs)

lemma try_block_unparsed_stops_at_parsing:
  assumes "parse_file e path = Inl (Exn c0)"
    "raise_at e (audible e f s) (early_messages f) 0 = None"
    "raise_at e (audible e f s) (early_messages f) 1 = Some c"
  shows "try_block e f path s = (Inl (Exn c), fold (sent e f) (take 1 (early_messages f)) s)"
  using assms by (simp add: try_defs)

lemma try_block_stops_at_parse:
  assumes "parse_file e path = Inl (Exn c)"
    "raise_at e (audible e f s) (early_messages f) 0 = None"
    "raise_at e (audible e f s) (early_messages f) 1 = None"
  shows "try_block e f path s =
     (Inl (Exn c), fold (sent e f) (take 2 (early_messages f)) s)"
  using assms by (simp add: try_defs)

lemma try_block_stops_at_commit:
  assumes "parse_file e path = Inr df"
    "raise_at e (audible e f s) (announcement_messages e f df) 0 = None"
    "raise_at e (audible e f s) (announcement_messages e f df) 1 = None"
    "raise_at e (audible e f s) (announcement_messages e f df) 2 = None"
    "raise_at e (audible e f s) (announcement_messages e f df) 3 = None"
    "failure_of (stage_result e Overview df) = None"
    "raise_at e (audible e f s) (announcement_messages e f df) 4 = None"
    "raise_at e (audible e f s) (announcement_messages e f df) 5 = None"
    "failure_of (stage_result e Statistical df) = None"
    "raise_at e (audible e f s) (announcement_messages e f df) 6 = None"
    "failure_of (stage_result e Pattern df) = None"
    "raise_at e (audible e f s) (announcement_messages e f df) 7 = None"
    "failure_of (stage_result e Quality df) = None"
    "commit_completed_raises e = Some c" "pending s = Some r" "\<not> session_failed s"
  shows "try_block e f path s =
     (Inl (Exn c),
      (fold (sent e f) (announcement_messages e f df) s)
        \<lparr>pending := Some (r\<lparr>insights := Some (filter_sort_trim (config e) (run_insights e df)),
              processing_status := ''completed''\<rparr>),
         session_failed := True,
         trace := trace (fold (sent e f) (announcement_messages e f df) s) @ [Commit_failed]\<rparr>)"
proof -
  from assms(6) have s4: "stage_result e Overview df = Inr (stage_value e Overview df)"
    by (rule failure_of_None)
  from assms(9) have s7: "stage_result e Statistical df = Inr (stage_value e Statistical df)"
    by (rule failure_of_None)
  from assms(11) have s9: "stage_result e Pattern df = Inr (stage_value e Pattern df)"
    by (rule failure_of_None)
  from assms(13) have s11: "stage_result e Quality df = Inr (stage_value e Quality df)"
    by (rule failure_of_None)
  from assms(1) assms(2) assms(3) assms(4) assms(5) assms(7) assms(8) assms(10) assms(12) s4 s7 s9 s11 assms(14-16) show ?thesis
    by (simp add: try_defs run_insights_def)
qed

lemma try_block_stops_at_completion:
  assumes "parse_file e path = Inr df"
    "raise_at e (audible e f s) (announcement_messages e f df) 0 = None"
    "raise_at e (audible e f s) (announcement_messages e f df) 1 = None"
    "raise_at e (audible e f s) (announcement_messages e f df) 2 = None"
    "raise_at e (audible e f s) (announcement_messages e f df) 3 = None"
    "failure_of (stage_result e Overview df) = None"
    "raise_at e (audible e f s) (announcement_messages e f df) 4 = None"
    "raise_at e (audible e f s) (announcement_messages e f df) 5 = None"
    "failure_of (stage_result e Statistical df) = None"
    "raise_at e (audible e f s) (announcement_messages e f df) 6 = None"
    "failure_of (stage_result e Pattern df) = None"
    "raise_at e (audible e f s) (announcement_messages e f df) 7 = None"
    "failure_of (stage_result e Quality df) = None"
    "commit_completed_raises e = None" "pending s = Some r" "\<not> session_failed s"
    "blocked e (audible e f s (announcement_messages e f df))
       (Insights_complete f (length (filter_sort_trim (config e) (run_insights e df))) (elapsed e))"
  shows "try_block e f path s =
     (Inl (Exn ''Set changed size during iteration''),
      (fold (sent e f) (announcement_messages e f df) s)
        \<lparr>pending := Some (r\<lparr>insights := Some (filter_sort_trim (config e) (run_insights e df)),
              processing_status := ''completed''\<rparr>),
         database := (database s)(f \<mapsto> r\<lparr>insights := Some (filter_sort_trim (config e) (run_insights e df)),
              processing_status := ''completed''\<rparr>),
         trace := trace (fold (sent e f) (announcement_messages e f df) s)
                    @ [Committed f (r\<lparr>insights := Some (filter_sort_trim (config e) (run_insights e df)),
              processing_status := ''completed''\<rparr>)]\<rparr>)"
proof -
  from assms(6) have s4: "stage_result e Overview df = Inr (stage_value e Overview df)"
    by (rule failure_of_None)
  from assms(9) have s7: "stage_result e Statistical df = Inr (stage_value e Statistical df)"
    by (rule failure_of_None)
  from assms(11) have s9: "stage_result e Pattern df = Inr (stage_value e Pattern df)"
    by (rule failure_of_None)
  from assms(13) have s11: "stage_result e Quality df = Inr (stage_value e Quality df)"
    by (rule failure_of_None)
  from assms(1) assms(2) assms(3) assms(4) assms(5) assms(7) assms(8) assms(10) assms(12) s4 s7 s9 s11 assms(14-17) show ?thesis
    by (simp add: try_defs run_insights_def)
qed

lemma try_block_completes:
  assumes "parse_file e path = Inr df"
    "raise_at e (audible e f s) (announcement_messages e f df) 0 = None"
    "raise_at e (audible e f s) (announcement_messages e f df) 1 = None"
    "raise_at e (audible e f s) (announcement_messages e f df) 2 = None"
    "raise_at e (audible e f s) (announcement_messages e f df) 3 = None"
    "failure_of (stage_result e Overview df) = None"
    "raise_at e (audible e f s) (announcement_messages e f df) 4 = None"
    "raise_at e (audible e f s) (announcement_messages e f df) 5 = None"
    "failure_of (stage_result e Statistical df) = None"
    "raise_at e (audible e f s) (announcement_messages e f df) 6 = None"
    "failure_of (stage_result e Pattern df) = None"
    "raise_at e (audible e f s) (announcement_messages e f df) 7 = None"
    "failure_of (stage_result e Quality df) = None"
    "commit_completed_raises e = None" "pending s = Some r" "\<not> session_failed s"
    "\<not> blocked e (audible e f s (announcement_messages e f df))
       (Insights_complete f (length (filter_sort_trim (config e) (run_insights e df))) (elapsed e))"
  shows "try_block e f path s =
     (Inr (filter_sort_trim (config e) (run_insights e df)),
      sent e f (Insights_complete f (length (filter_sort_trim (config e) (run_insights e df))) (elapsed e))
       ((fold (sent e f) (announcement_messages e f df) s)
        \<lparr>pending := Some (r\<lparr>insights := Some (filter_sort_trim (config e) (run_insights e df)),
              processing_status := ''completed''\<rparr>),
         database := (database s)(f \<mapsto> r\<lparr>insights := Some (filter_sort_trim (config e) (run_insights e df)),
              processing_status := ''completed''\<rparr>),
         trace := trace (fold (sent e f) (announcement_messages e f df) s)
                    @ [Committed f (r\<lparr>insights := Some (filter_sort_trim (config e) (run_insights e df)),
              processing_status := ''completed''\<rparr>)]\<rparr>))"
proof -
  from assms(6) have s4: "stage_result e Overview df = Inr (stage_value e Overview df)"
    by (rule failure_of_None)
  from assms(9) have s7: "stage_result e Statistical df = Inr (stage_value e Statistical df)"
    by (rule failure_of_None)
  from assms(11) have s9: "stage_result e Pattern df = Inr (stage_value e Pattern df)"
    by (rule failure_of_None)
  from assms(13) have s11: "stage_result e Quality df = Inr (stage_value e Quality df)"
    by (rule failure_of_None)
  from assms(1) assms(2) assms(3) assms(4) assms(5) assms(7) assms(8) assms(10) assms(12) s4 s7 s9 s11 assms(14-17) show ?thesis
    by (simp add: try_defs run_insights_def)
qed

lemma run_stops_before_commit:
  assumes "session_raises e = None" "database s f = Some r"
    and "try_block e f (filepath r) (s\<lparr>pending := Some r, session_failed := False\<rparr>)
           = (Inl (Exn c), fold (sent e f) ms (s\<lparr>pending := Some r, session_failed := False\<rparr>))"
    and "try_failure e (audible e f s) f r = Some (ms, c)"
  shows "run_observed e f s = run_summary e (audible e f s) f (database s)"
proof -
  let ?s' = "fold (sent e f) ms (s\<lparr>pending := Some r, session_failed := False\<rparr>)"
  have "run_observed e f s =
     handled e (audible e f s ms) f (database ?s') r (session_failed ?s') (delivered ms) c"
    using assms(1-3)
    by (rule run_handles_failure) (simp_all add: fold_sent_trace fold_sent_update audible_def)
  then show ?thesis
    by (simp add: run_summary_def assms)
qed

lemma run_session_raises:
  assumes "session_raises e = Some t"
  shows "run_observed e f s = run_summary e (audible e f s) f (database s)"
  using assms
  by (simp add: run_observed_def run_effects_def generate_insights_with_progress_def
      run_summary_def)

lemma run_not_found:
  assumes "session_raises e = None" "database s f = None"
  shows "run_observed e f s = run_summary e (audible e f s) f (database s)"
  using assms
  by (simp add: run_observed_def run_effects_def generate_insights_with_progress_def
      hub_call_status db_close_def run_summary_def audible_def Let_def)

lemma run_stops_at_commit:
  assumes "session_raises e = None" "database s f = Some r"
    "parse_file e (filepath r) = Inr df"
    "raise_at e (audible e f s) (announcement_messages e f df) 0 = None"
    "raise_at e (audible e f s) (announcement_messages e f df) 1 = None"
    "raise_at e (audible e f s) (announcement_messages e f df) 2 = None"
    "raise_at e (audible e f s) (announcement_messages e f df) 3 = None"
    "failure_of (stage_result e Overview df) = None"
    "raise_at e (audible e f s) (announcement_messages e f df) 4 = None"
    "raise_at e (audible e f s) (announcement_messages e f df) 5 = None"
    "failure_of (stage_result e Statistical df) = None"
    "raise_at e (audible e f s) (announcement_messages e f df) 6 = None"
    "failure_of (stage_result e Pattern df) = None"
    "raise_at e (audible e f s) (announcement_messages e f df) 7 = None"
    "failure_of (stage_result e Quality df) = None"
    "commit_completed_raises e = Some c"
  shows "run_observed e f s = run_summary e (audible e f s) f (database s)"
proof -
  let ?s0 = "s\<lparr>pending := Some r, session_failed := False\<rparr>"
  let ?final = "filter_sort_trim (config e) (run_insights e df)"
  let ?r = "r\<lparr>insights := Some ?final, processing_status := ''completed''\<rparr>"
  let ?before = "delivered (announcement_messages e f df)"
  have tf: "try_failure e (audible e f s) f r = None"
    using assms(3-15) by (simp add: try_failure_def Let_def)
  let ?sent = "fold (sent e f) (announcement_messages e f df) ?s0"
  have "try_block e f (filepath r) ?s0 =
     (Inl (Exn c),
      ?sent\<lparr>pending := Some ?r, session_failed := True,
              trace := trace ?sent @ [Commit_failed]\<rparr>)"
    by (rule try_block_stops_at_commit) (insert assms(3-16), simp_all)
  then have "run_observed e f s =
     handled e (audible e f s (announcement_messages e f df)) f (database s) ?r True
       (?before @ [Commit_failed]) c"
    by (subst run_handles_failure [OF assms(1,2)], assumption)
      (simp_all add: fold_sent_trace fold_sent_update audible_def)
  then show ?thesis
    by (simp add: run_summary_def Let_def assms tf)
qed

lemma run_stops_at_completion:
  assumes "session_raises e = None" "database s f = Some r"
    "parse_file e (filepath r) = Inr df"
    "raise_at e (audible e f s) (announcement_messages e f df) 0 = None"
    "raise_at e (audible e f s) (announcement_messages e f df) 1 = None"
    "raise_at e (audible e f s) (announcement_messages e f df) 2 = None"
    "raise_at e (audible e f s) (announcement_messages e f df) 3 = None"
    "failure_of (stage_result e Overview df) = None"
    "raise_at e (audible e f s) (announcement_messages e f df) 4 = None"
    "raise_at e (audible e f s) (announcement_messages e f df) 5 = None"
    "failure_of (stage_result e Statistical df) = None"
    "raise_at e (audible e f s) (announcement_messages e f df) 6 = None"
    "failure_of (stage_result e Pattern df) = None"
    "raise_at e (audible e f s) (announcement_messages e f df) 7 = None"
    "failure_of (stage_result e Quality df) = None"
    "commit_completed_raises e = None"
    "blocked e (audible e f s (announcement_messages e f df))
       (Insights_complete f (length (filter_sort_trim (config e) (run_insights e df))) (elapsed e))"
  shows "run_observed e f s = run_summary e (audible e f s) f (database s)"
proof -
  let ?s0 = "s\<lparr>pending := Some r, session_failed := False\<rparr>"
  let ?final = "filter_sort_trim (config e) (run_insights e df)"
  let ?r = "r\<lparr>insights := Some ?final, processing_status := ''completed''\<rparr>"
  let ?before = "delivered (announcement_messages e f df)"
  have tf: "try_failure e (audible e f s) f r = None"
    using assms(3-15) by (simp add: try_failure_def Let_def)
  let ?sent = "fold (sent e f) (announcement_messages e f df) ?s0"
  have "try_block e f (filepath r) ?s0 =
     (Inl (Exn ''Set changed size during iteration''),
      ?sent\<lparr>pending := Some ?r, database := (database ?s0)(f \<mapsto> ?r),
              trace := trace ?sent @ [Committed f ?r]\<rparr>)"
    by (rule try_block_stops_at_completion) (insert assms(3-17), simp_all)
  then have "run_observed e f s =
     handled e (audible e f s (announcement_messages e f df)) f
       ((database s)(f \<mapsto> ?r)) ?r False
       (?before @ [Committed f ?r]) ''Set changed size during iteration''"
    by (subst run_handles_failure [OF assms(1,2)], assumption)
      (simp_all add: fold_sent_trace fold_sent_update audible_def)
  then show ?thesis
    by (simp add: run_summary_def Let_def assms tf)
qed

lemma run_completes:
  assumes "session_raises e = None" "database s f = Some r"
    "parse_file e (filepath r) = Inr df"
    "raise_at e (audible e f s) (announcement_messages e f df) 0 = None"
    "raise_at e (audible e f s) (announcement_messages e f df) 1 = None"
    "raise_at e (audible e f s) (announcement_messages e f df) 2 = None"
    "raise_at e (audible e f s) (announcement_messages e f df) 3 = None"
    "failure_of (stage_result e Overview df) = None"
    "raise_at e (audible e f s) (announcement_messages e f df) 4 = None"
    "raise_at e (audible e f s) (announcement_messages e f df) 5 = None"
    "failure_of (stage_result e Statistical df) = None"
    "raise_at e (audible e f s) (announcement_messages e f df) 6 = None"
    "failure_of (stage_result e Pattern df) = None"
    "raise_at e (audible e f s) (announcement_messages e f df) 7 = None"
    "failure_of (stage_result e Quality df) = None"
    "commit_completed_raises e = None"
    "\<not> blocked e (audible e f s (announcement_messages e f df))
       (Insights_complete f (length (filter_sort_trim (config e) (run_insights e df))) (elapsed e))"
  shows "run_observed e f s = run_summary e (audible e f s) f (database s)"
proof -
  let ?s0 = "s\<lparr>pending := Some r, session_failed := False\<rparr>"
  let ?final = "filter_sort_trim (config e) (run_insights e df)"
  let ?r = "r\<lparr>insights := Some ?final, processing_status := ''completed''\<rparr>"
  let ?before = "delivered (announcement_messages e f df)"
  have tf: "try_failure e (audible e f s) f r = None"
    using assms(3-15) by (simp add: try_failure_def Let_def)
  let ?sent = "fold (sent e f) (announcement_messages e f df) ?s0"
  have "try_block e f (filepath r) ?s0 =
     (Inr ?final,
      sent e f (Insights_complete f (length ?final) (elapsed e))
        (?sent\<lparr>pending := Some ?r, database := (database ?s0)(f \<mapsto> ?r),
                trace := trace ?sent @ [Committed f ?r]\<rparr>))"
    by (rule try_block_completes) (insert assms(3-17), simp_all)
  then show ?thesis
    by (simp add: run_observed_alt generate_insights_with_progress_def assms(1,2)
        fold_sent_trace fold_sent_update run_summary_def Let_def assms(3,16,17) tf)
qed

lemma run_observed_summary:
  "run_observed e f s = run_summary e (audible e f s) f (database s)"
proof (cases "session_raises e")
  case (Some t)
  then show ?thesis by (rule run_session_raises)
next
  case None
  note sess = this
  show ?thesis
  proof (cases "database s f")
    case None
    with sess show ?thesis by (rule run_not_found)
  next
    case (Some r)
    note found = this
    let ?s0 = "s\<lparr>pending := Some r, session_failed := False\<rparr>"
    show ?thesis
    proof (cases "parse_file e (filepath r)")
      case (Inl x)
      obtain c0 where "x = Exn c0" by (cases x)
      with Inl have unparsed: "parse_file e (filepath r) = Inl (Exn c0)" by simp
      show ?thesis
      proof (cases "raise_at e (audible e f s) (early_messages f) 0")
        case (Some c)
        have tf: "try_failure e (audible e f s) f r = Some (take 0 (early_messages f), c)"
          using unparsed Some by (simp add: try_failure_def Let_def)
        have tb: "try_block e f (filepath r) ?s0 =
            (Inl (Exn c), fold (sent e f) (take 0 (early_messages f)) ?s0)"
          by (rule try_block_unparsed_stops_at_start) (insert unparsed Some, simp_all)
        from sess found tb tf show ?thesis by (rule run_stops_before_commit)
      next
        case None
        note n0 = this
        show ?thesis
        proof (cases "raise_at e (audible e f s) (early_messages f) 1")
          case (Some c)
          have tf: "try_failure e (audible e f s) f r = Some (take 1 (early_messages f), c)"
            using unparsed n0 Some by (simp add: try_failure_def Let_def)
          have tb: "try_block e f (filepath r) ?s0 =
              (Inl (Exn c), fold (sent e f) (take 1 (early_messages f)) ?s0)"
            by (rule try_block_unparsed_stops_at_parsing) (insert unparsed n0 Some, simp_all)
          from sess found tb tf show ?thesis by (rule run_stops_before_commit)
        next
          case None
          note n1 = this
          have tf: "try_failure e (audible e f s) f r = Some (take 2 (early_messages f), c0)"
            using unparsed n0 n1 by (simp add: try_failure_def Let_def)
          have tb: "try_block e f (filepath r) ?s0 =
              (Inl (Exn c0), fold (sent e f) (take 2 (early_messages f)) ?s0)"
            by (rule try_block_stops_at_parse) (insert unparsed n0 n1, simp_all)
          from sess found tb tf show ?thesis by (rule run_stops_before_commit)
        qed
      qed
    next
      case (Inr df)
      note parsed = this
      show ?thesis
      proof (cases "raise_at e (audible e f s) (announcement_messages e f df) 0")
        case (Some c)
        have tf: "try_failure e (audible e f s) f r = Some (take 0 (announcement_messages e f df), c)"
          using parsed Some by (simp add: try_failure_def Let_def)
        have tb: "try_block e f (filepath r) ?s0 =
            (Inl (Exn c), fold (sent e f) (take 0 (announcement_messages e f df)) ?s0)"
          by (rule try_block_stops_at_start) (insert parsed Some, simp_all)
        from sess found tb tf show ?thesis by (rule run_stops_before_commit)
      next
        case None
        note n0 = this
        show ?thesis
        proof (cases "raise_at e (audible e f s) (announcement_messages e f df) 1")
          case (Some c)
          have tf: "try_failure e (audible e f s) f r = Some (take 1 (announcement_messages e f df), c)"
            using parsed n0 Some by (simp add: try_failure_def Let_def)
          have tb: "try_block e f (filepath r) ?s0 =
              (Inl (Exn c), fold (sent e f) (take 1 (announcement_messages e f df)) ?s0)"
            by (rule try_block_stops_at_parsing) (insert parsed n0 Some, simp_all)
          from sess found tb tf show ?thesis by (rule run_stops_before_commit)
        next
          case None
          note n1 = this
          show ?thesis
          proof (cases "raise_at e (audible e f s) (announcement_messages e f df) 2")
            case (Some c)
            have tf: "try_failure e (audible e f s) f r = Some (take 2 (announcement_messages e f df), c)"
              using parsed n0 n1 Some by (simp add: try_failure_def Let_def)
            have tb: "try_block e f (filepath r) ?s0 =
                (Inl (Exn c), fold (sent e f) (take 2 (announcement_messages e f df)) ?s0)"
              by (rule try_block_stops_at_validating) (insert parsed n0 n1 Some, simp_all)
            from sess found tb tf show ?thesis by (rule run_stops_before_commit)
          next
            case None
            note n2 = this
            show ?thesis
            proof (cases "raise_at e (audible e f s) (announcement_messages e f df) 3")
              case (Some c)
              have tf: "try_failure e (audible e f s) f r = Some (take 3 (announcement_messages e f df), c)"
                using parsed n0 n1 n2 Some by (simp add: try_failure_def Let_def)
              have tb: "try_block e f (filepath r) ?s0 =
                  (Inl (Exn c), fold (sent e f) (take 3 (announcement_messages e f df)) ?s0)"
                by (rule try_block_stops_at_overview) (insert parsed n0 n1 n2 Some, simp_all)
              from sess found tb tf show ?thesis by (rule run_stops_before_commit)
            next
              case None
              note n3 = this
              show ?thesis
              proof (cases "failure_of (stage_result e Overview df)")
                case (Some c)
                have tf: "try_failure e (audible e f s) f r = Some (take 4 (announcement_messages e f df), c)"
                  using parsed n0 n1 n2 n3 Some by (simp add: try_failure_def Let_def)
                have tb: "try_block e f (filepath r) ?s0 =
                    (Inl (Exn c), fold (sent e f) (take 4 (announcement_messages e f df)) ?s0)"
                  by (rule try_block_stops_at_overview_stage) (insert parsed n0 n1 n2 n3 Some, simp_all)
                from sess found tb tf show ?thesis by (rule run_stops_before_commit)
              next
                case None
                note n4 = this
                show ?thesis
                proof (cases "raise_at e (audible e f s) (announcement_messages e f df) 4")
                  case (Some c)
                  have tf: "try_failure e (audible e f s) f r = Some (take 4 (announcement_messages e f df), c)"
                    using parsed n0 n1 n2 n3 n4 Some by (simp add: try_failure_def Let_def)
                  have tb: "try_block e f (filepath r) ?s0 =
                      (Inl (Exn c), fold (sent e f) (take 4 (announcement_messages e f df)) ?s0)"
                    by (rule try_block_stops_at_overview_done) (insert parsed n0 n1 n2 n3 n4 Some, simp_all)
                  from sess found tb tf show ?thesis by (rule run_stops_before_commit)
                next
                  case None
                  note n5 = this
                  show ?thesis
                  proof (cases "raise_at e (audible e f s) (announcement_messages e f df) 5")
                    case (Some c)
                    have tf: "try_failure e (audible e f s) f r = Some (take 5 (announcement_messages e f df), c)"
                      using parsed n0 n1 n2 n3 n4 n5 Some by (simp add: try_failure_def Let_def)
                    have tb: "try_block e f (filepath r) ?s0 =
                        (Inl (Exn c), fold (sent e f) (take 5 (announcement_messages e f df)) ?s0)"
                      by (rule try_block_stops_at_statistical) (insert parsed n0 n1 n2 n3 n4 n5 Some, simp_all)
                    from sess found tb tf show ?thesis by (rule run_stops_before_commit)
                  next
                    case None
                    note n6 = this
                    show ?thesis
                    proof (cases "failure_of (stage_result e Statistical df)")
                      case (Some c)
                      have tf: "try_failure e (audible e f s) f r = Some (take 6 (announcement_messages e f df), c)"
                        using parsed n0 n1 n2 n3 n4 n5 n6 Some by (simp add: try_failure_def Let_def)
                      have tb: "try_block e f (filepath r) ?s0 =
                          (Inl (Exn c), fold (sent e f) (take 6 (announcement_messages e f df)) ?s0)"
                        by (rule try_block_stops_at_statistical_stage) (insert parsed n0 n1 n2 n3 n4 n5 n6 Some, simp_all)
                      from sess found tb tf show ?thesis by (rule run_stops_before_commit)
                    next
                      case None
                      note n7 = this
                      show ?thesis
                      proof (cases "raise_at e (audible e f s) (announcement_messages e f df) 6")
                        case (Some c)
                        have tf: "try_failure e (audible e f s) f r = Some (take 6 (announcement_messages e f df), c)"
                          using parsed n0 n1 n2 n3 n4 n5 n6 n7 Some by (simp add: try_failure_def Let_def)
                        have tb: "try_block e f (filepath r) ?s0 =
                            (Inl (Exn c), fold (sent e f) (take 6 (announcement_messages e f df)) ?s0)"
                          by (rule try_block_stops_at_pattern) (insert parsed n0 n1 n2 n3 n4 n5 n6 n7 Some, simp_all)
                        from sess found tb tf show ?thesis by (rule run_stops_before_commit)
                      next
                        case None
                        note n8 = this
                        show ?thesis
                        proof (cases "failure_of (stage_result e Pattern df)")
                          case (Some c)
                          have tf: "try_failure e (audible e f s) f r = Some (take 7 (announcement_messages e f df), c)"
                            using parsed n0 n1 n2 n3 n4 n5 n6 n7 n8 Some by (simp add: try_failure_def Let_def)
                          have tb: "try_block e f (filepath r) ?s0 =
                              (Inl (Exn c), fold (sent e f) (take 7 (announcement_messages e f df)) ?s0)"
                            by (rule try_block_stops_at_pattern_stage) (insert parsed n0 n1 n2 n3 n4 n5 n6 n7 n8 Some, simp_all)
                          from sess found tb tf show ?thesis by (rule run_stops_before_commit)
                        next
                          case None
                          note n9 = this
                          show ?thesis
                          proof (cases "raise_at e (audible e f s) (announcement_messages e f df) 7")
                            case (Some c)
                            have tf: "try_failure e (audible e f s) f r = Some (take 7 (announcement_messages e f df), c)"
                              using parsed n0 n1 n2 n3 n4 n5 n6 n7 n8 n9 Some by (simp add: try_failure_def Let_def)
                            have tb: "try_block e f (filepath r) ?s0 =
                                (Inl (Exn c), fold (sent e f) (take 7 (announcement_messages e f df)) ?s0)"
                              by (rule try_block_stops_at_quality) (insert parsed n0 n1 n2 n3 n4 n5 n6 n7 n8 n9 Some, simp_all)
                            from sess found tb tf show ?thesis by (rule run_stops_before_commit)
                          next
                            case None
                            note n10 = this
                            show ?thesis
                            proof (cases "failure_of (stage_result e Quality df)")
                              case (Some c)
                              have tf: "try_failure e (audible e f s) f r = Some (take 8 (announcement_messages e f df), c)"
                                using parsed n0 n1 n2 n3 n4 n5 n6 n7 n8 n9 n10 Some by (simp add: try_failure_def Let_def)
                              have tb: "try_block e f (filepath r) ?s0 =
                                  (Inl (Exn c), fold (sent e f) (take 8 (announcement_messages e f df)) ?s0)"
                                by (rule try_block_stops_at_quality_stage) (insert parsed n0 n1 n2 n3 n4 n5 n6 n7 n8 n9 n10 Some, simp_all)
                              from sess found tb tf show ?thesis by (rule run_stops_before_commit)
                            next
                              case None
                              note n11 = this
                              show ?thesis
                              proof (cases "commit_completed_raises e")
                                case (Some c)
                                from sess found parsed n0 n1 n2 n3 n4 n5 n6 n7 n8 n9 n10 n11 Some show ?thesis by (rule run_stops_at_commit)
                              next
                                case None
                                show ?thesis
                                proof (cases "blocked e (audible e f s (announcement_messages e f df))
                                                (Insights_complete f (length (filter_sort_trim (config e) (run_insights e df))) (elapsed e))")
                                  case True
                                  from sess found parsed n0 n1 n2 n3 n4 n5 n6 n7 n8 n9 n10 n11 None True show ?thesis
                                    by (rule run_stops_at_completion)
                                next
                                  case False
                                  from sess found parsed n0 n1 n2 n3 n4 n5 n6 n7 n8 n9 n10 n11 None False show ?thesis
                                    by (rule run_completes)
                                qed
                              qed
                            qed
                          qed
                        qed
                      qed
                    qed
                  qed
                qed
              qed
            qed
          qed
        qed
      qed
    qed
  qed
qed

lemma progress_steps_append:
  "progress_steps (xs @ ys) = progress_steps xs @ progress_steps ys"
  by (induction xs rule: progress_steps.induct) simp_all

lemma progress_steps_forget: "progress_steps (map forget tr) = progress_steps tr"
  by (induction tr rule: progress_steps.induct) simp_all

lemma progress_steps_prefix:
  assumes "prefix xs ys"
  shows "prefix (progress_steps xs) (progress_steps ys)"
proof -
  from assms obtain zs where "ys = xs @ zs" by (auto simp: prefix_def)
  then show ?thesis by (simp add: progress_steps_append)
qed

lemma run_effects_summary:
  "map forget (run_effects e f s) = fst (snd (run_summary e (audible e f s) f (database s)))"
  by (simp add: run_observed_summary [symmetric] run_observed_def)

lemma run_result_summary:
  "fst (generate_insights_with_progress e f s)
     = fst (run_summary e (audible e f s) f (database s))"
  by (simp add: run_observed_summary [symmetric] run_observed_def)

lemma run_database_summary:
  "database (snd (generate_insights_with_progress e f s))
     = snd (snd (run_summary e (audible e f s) f (database s)))"
  by (simp add: run_observed_summary [symmetric] run_observed_def)

lemma try_failure_take:
  assumes "try_failure e lis f r = Some (ms, c)"
  shows "(\<exists>k. ms = take k (early_messages f))
       \<or> (\<exists>k df. parse_file e (filepath r) = Inr df
                \<and> ms = take k (announcement_messages e f df))"
  using assms
  by (auto simp: try_failure_def Let_def split: sum.splits exn.splits)

lemma progress_steps_announcements:
  "progress_steps (delivered (announcement_messages e f df))
     = [(1, 6), (2, 6), (3, 6), (3, 6), (4, 6), (5, 6), (6, 6)]"
  by (simp add: announcement_messages_def delivered_def progress_message_def Let_def)

lemma progress_steps_early:
  "progress_steps (delivered (early_messages f)) = [(1, 6)]"
  by (simp add: early_messages_def delivered_def progress_message_def)

lemma delivered_take: "delivered (take k ms) = take k (delivered ms)"
  by (simp add: delivered_def take_map)

lemma progress_steps_try_failure:
  assumes "try_failure e lis f r = Some (ms, c)"
  shows "prefix (progress_steps (delivered ms))
     [(1, 6), (2, 6), (3, 6), (3, 6), (4, 6), (5, 6), (6, 6)]"
proof -
  from try_failure_take [OF assms] consider
    k where "ms = take k (early_messages f)"
  | k df where "ms = take k (announcement_messages e f df)"
    by blast
  then show ?thesis
  proof cases
    case 1
    have "prefix (progress_steps (delivered ms)) (progress_steps (delivered (early_messages f)))"
      unfolding 1 delivered_take by (rule progress_steps_prefix) (rule take_is_prefix)
    also have "prefix (progress_steps (delivered (early_messages f)))
        [(1, 6), (2, 6), (3, 6), (3, 6), (4, 6), (5, 6), (6, 6)]"
      by (simp add: progress_steps_early)
    finally show ?thesis .
  next
    case 2
    have "prefix (progress_steps (delivered ms))
        (progress_steps (delivered (announcement_messages e f df)))"
      unfolding 2 delivered_take by (rule progress_steps_prefix) (rule take_is_prefix)
    then show ?thesis by (simp add: progress_steps_announcements)
  qed
qed

lemma progress_steps_handled:
  "progress_steps (fst (snd (handled e l f db r broken before c))) = progress_steps before"
  by (simp add: handled_def Let_def progress_steps_append)

lemma progress_steps_summary:
  "prefix (progress_steps (fst (snd (run_summary e lis f db))))
     [(1, 6), (2, 6), (3, 6), (3, 6), (4, 6), (5, 6), (6, 6)]"
proof (cases "session_raises e")
  case (Some t)
  then show ?thesis by (simp add: run_summary_def)
next
  case None
  note sess = this
  show ?thesis
  proof (cases "db f")
    case None
    with sess show ?thesis by (simp add: run_summary_def Let_def)
  next
    case (Some r)
    note found = this
    show ?thesis
    proof (cases "try_failure e lis f r")
      case (Some failure)
      obtain ms c where "failure = (ms, c)" by (cases failure)
      with Some have tf: "try_failure e lis f r = Some (ms, c)" by simp
      from progress_steps_try_failure [OF tf] show ?thesis
        by (simp add: run_summary_def sess found tf progress_steps_handled)
    next
      case None
      then show ?thesis
        by (simp add: run_summary_def sess found Let_def progress_steps_handled
            progress_steps_append progress_steps_announcements
            split: sum.splits option.splits)
    qed
  qed
qed

lemma prefix_sorted_fst:
  assumes "prefix xs ys" "sorted (map fst ys)"
  shows "sorted (map fst xs)"
proof -
  from assms(1) obtain zs where "ys = xs @ zs" by (auto simp: prefix_def)
  with assms(2) show ?thesis by (simp add: sorted_append)
qed

text \<open>
  Claim C1, as amended. The step numbers of the progress events of a run, in the order of
  emission, are a prefix of 1, 2, 3, 3, 4, 5, 6: they never decrease, step 3 is announced
  twice (before and after the overview stage), and each event carries the total 6, which
  bounds its step number.
\<close>

theorem progress_steps_nondecreasing:
  "prefix (progress_steps (run_effects e f s))
     [(1, 6), (2, 6), (3, 6), (3, 6), (4, 6), (5, 6), (6, 6)]
   \<and> sorted (map fst (progress_steps (run_effects e f s)))
   \<and> (\<forall>(n, k) \<in> set (progress_steps (run_effects e f s)). k = 6 \<and> n \<le> k)"
proof -
  let ?all = "[(1, 6), (2, 6), (3, 6), (3, 6), (4, 6), (5, 6), (6, 6)] :: (int \<times> int) list"
  have "progress_steps (run_effects e f s) = progress_steps (map forget (run_effects e f s))"
    by (simp add: progress_steps_forget)
  then have p: "prefix (progress_steps (run_effects e f s)) ?all"
    by (simp add: run_effects_summary progress_steps_summary)
  from p have "sorted (map fst (progress_steps (run_effects e f s)))"
    by (rule prefix_sorted_fst) simp
  moreover from p have "set (progress_steps (run_effects e f s)) \<subseteq> set ?all"
    by (rule set_mono_prefix)
  then have "\<forall>(n, k) \<in> set (progress_steps (run_effects e f s)). k = 6 \<and> n \<le> k"
    by auto
  ultimately show ?thesis using p by (intro conjI)
qed

lemma demo_stage_results:
  "stage_result demo_env Overview demo_frame = Inr (generate_overview_insights demo_frame)"
  "stage_result demo_env Statistical demo_frame = Inr (generate_statistical_insights demo_frame)"
  "stage_result demo_env Pattern demo_frame = Inr (generate_pattern_insights demo_frame)"
  "stage_result demo_env Quality demo_frame = Inr (quality_found demo_frame)"
  by (simp_all add: stage_result_def demo_env_def quality_found_def demo_quality_insights)

lemma demo_stage_values:
  "stage_value demo_env Overview demo_frame = generate_overview_insights demo_frame"
  "stage_value demo_env Statistical demo_frame = generate_statistical_insights demo_frame"
  "stage_value demo_env Pattern demo_frame = generate_pattern_insights demo_frame"
  "stage_value demo_env Quality demo_frame = quality_found demo_frame"
  by (simp_all add: stage_value_def demo_stage_results)

lemma demo_run_insights: "run_insights demo_env demo_frame = stage_insights demo_frame"
  by (simp add: run_insights_def stage_insights_def demo_stage_values)

lemma demo_try_failure:
  "try_failure demo_env lis ''f''
     \<lparr>filepath = ''data.csv'', insights = None, processing_status = ''processing''\<rparr> = None"
proof -
  have quiet: "raise_at demo_env lis ms k = None" for ms k
    by (simp add: raise_at_def raise_of_def blocked_def demo_env_def)
  have "parse_file demo_env ''data.csv'' = Inr demo_frame"
    by (simp add: demo_env_def)
  then show ?thesis
    by (simp add: try_failure_def Let_def quiet failure_of_def demo_stage_results)
qed

lemma demo_run_summary:
  "run_summary demo_env lis ''f'' (database demo_state) =
     (Inr (filter_sort_trim default_settings (stage_insights demo_frame)),
      delivered (announcement_messages demo_env ''f'' demo_frame)
        @ [Committed ''f''
             \<lparr>filepath = ''data.csv'',
              insights = Some (filter_sort_trim default_settings (stage_insights demo_frame)),
              processing_status = ''completed''\<rparr>,
           Sent (Insights_complete ''f''
                   (length (filter_sort_trim default_settings (stage_insights demo_frame))) 3) {}],
      [''f'' \<mapsto>
         \<lparr>filepath = ''data.csv'',
          insights = Some (filter_sort_trim default_settings (stage_insights demo_frame)),
          processing_status = ''completed''\<rparr>])"
proof -
  have db: "database demo_state ''f''
      = Some \<lparr>filepath = ''data.csv'', insights = None, processing_status = ''processing''\<rparr>"
    by (simp add: demo_state_def)
  have env: "session_raises demo_env = None" "commit_completed_raises demo_env = None"
    "parse_file demo_env ''data.csv'' = Inr demo_frame" "config demo_env = default_settings"
    "elapsed demo_env = 3" "blocked demo_env l msg = False" for l msg
    by (simp_all add: demo_env_def blocked_def)
  show ?thesis
    by (simp add: run_summary_def db env demo_try_failure demo_run_insights Let_def)
      (simp add: demo_state_def)
qed

lemma demo_progress_steps:
  "progress_steps (run_effects demo_env ''f'' demo_state)
     = [(1, 6), (2, 6), (3, 6), (3, 6), (4, 6), (5, 6), (6, 6)]"
proof -
  have "progress_steps (run_effects demo_env ''f'' demo_state)
      = progress_steps (map forget (run_effects demo_env ''f'' demo_state))"
    by (simp add: progress_steps_forget)
  then show ?thesis
    unfolding run_effects_summary demo_run_summary
    by (simp add: progress_steps_append progress_steps_announcements)
qed

text \<open>
  Claim C1, as stated, fails on a run without failures: the sequence is not strictly
  increasing.
\<close>

theorem progress_steps_repeat_a_step:
  "map fst (progress_steps (run_effects demo_env ''f'' demo_state)) = [1, 2, 3, 3, 4, 5, 6]
   \<and> \<not> sorted_wrt (<) (map fst (progress_steps (run_effects demo_env ''f'' demo_state)))"
  by (simp add: demo_progress_steps)

theorem progress_steps_nondecreasing_witness:
  "progress_steps (run_effects demo_env ''f'' demo_state)
     = [(1, 6), (2, 6), (3, 6), (3, 6), (4, 6), (5, 6), (6, 6)]
   \<and> sorted (map fst (progress_steps (run_effects demo_env ''f'' demo_state)))
   \<and> list_all (\<lambda>(n, k). k = 6 \<and> n \<le> k)
        (progress_steps (run_effects demo_env ''f'' demo_state))"
proof -
  note inst = progress_steps_nondecreasing [of demo_env "''f''" demo_state]
  from inst have a: "sorted (map fst (progress_steps (run_effects demo_env ''f'' demo_state)))"
    by (elim conjE)
  from inst have "\<forall>(n, k) \<in> set (progress_steps (run_effects demo_env ''f'' demo_state)).
      k = 6 \<and> n \<le> k"
    by (elim conjE)
  then have b: "list_all (\<lambda>(n, k). k = 6 \<and> n \<le> k)
        (progress_steps (run_effects demo_env ''f'' demo_state))"
    by (simp only: list_all_iff)
  from demo_progress_steps a b show ?thesis by (intro conjI)
qed

lemma written_append: "written (xs @ ys) = written xs @ written ys"
  by (induction xs rule: written.induct) simp_all

lemma written_forget: "written (map forget tr) = written tr"
  by (induction tr rule: written.induct) simp_all

lemma announced_forget: "announced (forget x) = announced x"
  by (cases x rule: announced.cases) simp_all

lemma terminal_forget: "terminal (map forget tr) = terminal tr"
  by (simp add: terminal_def last_map announced_forget)




lemma written_delivered: "written (delivered ms) = []"
  by (induction ms) (simp_all add: delivered_def)





lemma try_failure_unparsed:
  assumes "parse_file e (filepath r) = Inl x"
  shows "try_failure e lis f r \<noteq> None"
proof -
  obtain c where "x = Exn c" by (cases x)
  with assms have "parse_file e (filepath r) = Inl (Exn c)" by simp
  then show ?thesis
    by (cases "raise_at e lis (early_messages f) 0"; cases "raise_at e lis (early_messages f) 1")
      (simp_all add: try_failure_def Let_def)
qed




text \<open>Sample runs: a hub whose handles accept every message keeps its subscribers.\<close>

lemma hub_after_all: "hub_after (\<lambda>ws. True) m f = m"
proof (cases "active_connections m f")
  case None
  then show ?thesis by (simp add: hub_after_def)
next
  case (Some subscribers)
  then have "(active_connections m)(f \<mapsto> subscribers) = active_connections m"
    by (rule map_upd_triv)
  moreover have "Set.filter (\<lambda>ws. True) subscribers = subscribers" by auto
  ultimately show ?thesis by (simp add: hub_after_def Some)
qed

lemma audible_all:
  assumes "delivers_at e = (\<lambda>n ws. True)"
  shows "audible e f s ms = listening (manager s) f"
proof -
  have "manager (fold (sent e f) ms s) = manager s" for s
    by (induction ms arbitrary: s) (simp_all add: sent_def assms hub_after_all)
  then show ?thesis by (simp add: audible_def)
qed

lemma demo_audible:
  "audible demo_env ''f'' demo_state ms"
  "audible missing_file_env ''f'' demo_state ms"
  "audible unwritable_env ''f'' demo_state ms"
  "audible hangup_env ''f'' demo_state ms"
  "audible cut_off_env ''f'' demo_state ms"
  by (simp_all add: audible_all demo_env_def missing_file_env_def unwritable_env_def
      hangup_env_def cut_off_env_def demo_state_def demo_manager_def listening_def)

lemma raise_at_uninterrupted:
  assumes "interrupted e = (\<lambda>msg. False)"
  shows "raise_at e lis ms k = None"
  by (simp add: raise_at_def raise_of_def blocked_def assms)

lemma demo_record:
  "database demo_state ''f''
     = Some \<lparr>filepath = ''data.csv'', insights = None, processing_status = ''processing''\<rparr>"
  "database demo_state ''nobody'' = None"
  by (simp_all add: demo_state_def)

lemma missing_file_parse:
  "parse_file missing_file_env ''data.csv''
     = Inl (Exn ''Failed to parse file: File not found: data.csv'')"
  "parse_file unwritable_env ''data.csv''
     = Inl (Exn ''Failed to parse file: File not found: data.csv'')"
  "parse_file hangup_env ''data.csv''
     = Inl (Exn ''Failed to parse file: File not found: data.csv'')"
  by (simp_all add: missing_file_env_def unwritable_env_def hangup_env_def)

lemma missing_file_try_failure:
  "try_failure missing_file_env lis ''f''
     \<lparr>filepath = ''data.csv'', insights = None, processing_status = ''processing''\<rparr>
   = Some (early_messages ''f'', ''Failed to parse file: File not found: data.csv'')"
  "try_failure unwritable_env lis ''f''
     \<lparr>filepath = ''data.csv'', insights = None, processing_status = ''processing''\<rparr>
   = Some (early_messages ''f'', ''Failed to parse file: File not found: data.csv'')"
proof -
  have quiet: "raise_at missing_file_env lis ms k = None"
    "raise_at unwritable_env lis ms k = None" for ms k
    by (rule raise_at_uninterrupted,
        simp add: missing_file_env_def unwritable_env_def demo_env_def)+
  show "try_failure missing_file_env lis ''f''
     \<lparr>filepath = ''data.csv'', insights = None, processing_status = ''processing''\<rparr>
   = Some (early_messages ''f'', ''Failed to parse file: File not found: data.csv'')"
    by (simp add: try_failure_def Let_def quiet missing_file_parse early_messages_def)
  show "try_failure unwritable_env lis ''f''
     \<lparr>filepath = ''data.csv'', insights = None, processing_status = ''processing''\<rparr>
   = Some (early_messages ''f'', ''Failed to parse file: File not found: data.csv'')"
    by (simp add: try_failure_def Let_def quiet missing_file_parse early_messages_def)
qed

lemma hangup_try_failure:
  "try_failure hangup_env lis ''f''
     \<lparr>filepath = ''data.csv'', insights = None, processing_status = ''processing''\<rparr>
   = Some (early_messages ''f'', ''Failed to parse file: File not found: data.csv'')"
proof -
  have quiet: "raise_at hangup_env lis (early_messages ''f'') 0 = None"
    "raise_at hangup_env lis (early_messages ''f'') (Suc 0) = None"
    by (simp_all add: raise_at_def raise_of_def blocked_def hangup_env_def early_messages_def
        progress_message_def)
  have "try_failure hangup_env lis ''f''
     \<lparr>filepath = ''data.csv'', insights = None, processing_status = ''processing''\<rparr>
   = Some (take 2 (early_messages ''f''), ''Failed to parse file: File not found: data.csv'')"
    by (simp add: try_failure_def Let_def quiet missing_file_parse)
  then show ?thesis by (simp add: early_messages_def)
qed

lemma missing_file_run_summary:
  "run_summary missing_file_env lis ''f'' (database demo_state) =
     (Inr [],
      delivered (early_messages ''f'')
        @ [Committed ''f''
             \<lparr>filepath = ''data.csv'', insights = None, processing_status = ''failed''\<rparr>,
           Sent (Status_update ''f'' ''failed''
             ''Analysis failed: Failed to parse file: File not found: data.csv'' 0) {}],
      [''f'' \<mapsto>
         \<lparr>filepath = ''data.csv'', insights = None, processing_status = ''failed''\<rparr>])"
proof -
  have env: "session_raises missing_file_env = None" "commit_failed_raises missing_file_env = None"
    "blocked missing_file_env l msg = False" for l msg
    by (simp_all add: missing_file_env_def demo_env_def blocked_def)
  show ?thesis
    by (simp add: run_summary_def demo_record env missing_file_try_failure handled_def Let_def)
      (simp add: demo_state_def)
qed


lemma hangup_run_summary:
  "run_summary hangup_env (audible hangup_env ''f'' demo_state) ''f'' (database demo_state) =
     (Inl (Exn ''Set changed size during iteration''),
      delivered (early_messages ''f'')
        @ [Committed ''f''
             \<lparr>filepath = ''data.csv'', insights = None, processing_status = ''failed''\<rparr>],
      [''f'' \<mapsto>
         \<lparr>filepath = ''data.csv'', insights = None, processing_status = ''failed''\<rparr>])"
proof -
  have env: "session_raises hangup_env = None" "commit_failed_raises hangup_env = None"
    "blocked hangup_env True (Status_update ''f'' ''failed'' tx 0)" for tx
    by (simp_all add: hangup_env_def missing_file_env_def demo_env_def blocked_def)
  show ?thesis
    by (simp add: run_summary_def demo_record env hangup_try_failure handled_def Let_def
        demo_audible)
      (simp add: demo_state_def)
qed


lemma cut_off_run_summary:
  "run_summary cut_off_env (audible cut_off_env ''f'' demo_state) ''f'' (database demo_state) =
     (Inr [],
      delivered (announcement_messages cut_off_env ''f'' demo_frame)
        @ [Committed ''f''
             \<lparr>filepath = ''data.csv'',
              insights = Some (filter_sort_trim default_settings (stage_insights demo_frame)),
              processing_status = ''completed''\<rparr>,
           Committed ''f''
             \<lparr>filepath = ''data.csv'',
              insights = Some (filter_sort_trim default_settings (stage_insights demo_frame)),
              processing_status = ''failed''\<rparr>,
           Sent (Status_update ''f'' ''failed''
             ''Analysis failed: Set changed size during iteration'' 0) {}],
      [''f'' \<mapsto>
         \<lparr>filepath = ''data.csv'',
          insights = Some (filter_sort_trim default_settings (stage_insights demo_frame)),
          processing_status = ''failed''\<rparr>])"
proof -
  let ?r = "\<lparr>filepath = ''data.csv'', insights = None, processing_status = ''processing''\<rparr>"
  have stages: "stage_result cut_off_env st demo_frame = stage_result demo_env st demo_frame"
    for st
    by (simp add: stage_result_def cut_off_env_def)
  have quiet: "raise_at cut_off_env lis (announcement_messages cut_off_env ''f'' demo_frame) k
      = None" if "k < 8" for lis k
  proof -
    have "list_all (\<lambda>msg. \<not> completion_notice msg)
            (announcement_messages cut_off_env ''f'' demo_frame)"
      by (simp add: announcement_messages_def Let_def progress_message_def)
    moreover have "length (announcement_messages cut_off_env ''f'' demo_frame) = 8"
      by (simp add: announcement_messages_def Let_def)
    ultimately
    have "\<not> completion_notice (announcement_messages cut_off_env ''f'' demo_frame ! k)"
      using that by (simp add: list_all_length)
    then show ?thesis
      by (simp add: raise_at_def raise_of_def blocked_def cut_off_env_def)
  qed
  have tf: "try_failure cut_off_env lis ''f'' ?r = None" for lis
  proof -
    have "parse_file cut_off_env ''data.csv'' = Inr demo_frame"
      by (simp add: cut_off_env_def demo_env_def)
    then show ?thesis
      by (simp add: try_failure_def Let_def quiet failure_of_def stages demo_stage_results)
  qed
  have insights: "run_insights cut_off_env demo_frame = stage_insights demo_frame"
    by (simp add: run_insights_def stage_insights_def stage_value_def stages demo_stage_results)
  have env: "session_raises cut_off_env = None" "commit_completed_raises cut_off_env = None"
    "commit_failed_raises cut_off_env = None"
    "parse_file cut_off_env ''data.csv'' = Inr demo_frame"
    "config cut_off_env = default_settings"
    "blocked cut_off_env True (Insights_complete ''f'' n t)"
    "blocked cut_off_env True (Status_update ''f'' st tx p) = False" for n t st tx p
    by (simp_all add: cut_off_env_def demo_env_def blocked_def)
  show ?thesis
    by (simp add: run_summary_def demo_record env tf insights handled_def Let_def demo_audible)
      (simp add: demo_state_def)
qed


text \<open>
  A run whose completion broadcast raises after the commit of \<open>completed\<close> writes two
  statuses: the handler commits \<open>failed\<close> on the row that carries the new insights,
  announces the failure and returns the empty list.
\<close>

lemma interrupted_completion_writes_twice:
  "written (run_effects cut_off_env ''f'' demo_state) = [''completed'', ''failed'']
   \<and> terminal (run_effects cut_off_env ''f'' demo_state) = Some ''failed''
   \<and> fst (generate_insights_with_progress cut_off_env ''f'' demo_state) = Inr []
   \<and> database (snd (generate_insights_with_progress cut_off_env ''f'' demo_state)) ''f''
       = Some \<lparr>filepath = ''data.csv'',
               insights = Some (filter_sort_trim default_settings (stage_insights demo_frame)),
               processing_status = ''failed''\<rparr>"
proof -
  have "written (run_effects cut_off_env ''f'' demo_state)
      = written (map forget (run_effects cut_off_env ''f'' demo_state))"
    by (simp add: written_forget)
  then have w: "written (run_effects cut_off_env ''f'' demo_state) = [''completed'', ''failed'']"
    unfolding run_effects_summary cut_off_run_summary
    by (simp add: written_append written_delivered)
  have "terminal (run_effects cut_off_env ''f'' demo_state)
      = terminal (map forget (run_effects cut_off_env ''f'' demo_state))"
    by (simp add: terminal_forget)
  then have t: "terminal (run_effects cut_off_env ''f'' demo_state) = Some ''failed''"
    unfolding run_effects_summary cut_off_run_summary by (simp add: terminal_def)
  from w t show ?thesis
    by (simp add: run_result_summary run_database_summary cut_off_run_summary)
qed


text \<open>
  Claim C5 fails in the code. The uploaded file of the subject is gone, so
  \<^verbatim>\<open>parse_file\<close> raises inside the \<^verbatim>\<open>try\<close>; the handler commits \<open>failed\<close>; its
  broadcast of the failure is outside every \<^verbatim>\<open>try\<close>, and the subscriber leaves while it
  is delivered: the run raises \<^verbatim>\<open>RuntimeError\<close> to its caller instead of returning the
  empty list, and no failure is announced.
\<close>

theorem failure_broadcast_escapes:
  "fst (generate_insights_with_progress hangup_env ''f'' demo_state)
     = Inl (Exn ''Set changed size during iteration'')
   \<and> map forget (run_effects hangup_env ''f'' demo_state)
     = [Sent (Status_update ''f'' ''processing'' ''Starting analysis...'' 0) {},
        Sent (progress_message ''f'' ''Parsing dataset'' 1 0) {},
        Committed ''f''
          \<lparr>filepath = ''data.csv'', insights = None, processing_status = ''failed''\<rparr>]"
  by (simp add: run_result_summary run_effects_summary hangup_run_summary delivered_def
      early_messages_def)

text \<open>
  When no broadcast of a \<open>failed\<close> status raises and the session opens, a run returns
  normally; with the same missing file and a subscriber that stays, it returns the empty
  list after the commit of \<open>failed\<close> and the broadcast of the failure.
\<close>

lemma run_returns_unless_notice_interrupted:
  assumes "session_raises e = None" "\<forall>tx. \<not> interrupted e (Status_update f ''failed'' tx 0)"
  shows "\<exists>res. fst (generate_insights_with_progress e f s) = Inr res"
proof -
  have quiet: "blocked e l (Status_update f ''failed'' tx 0) = False" for l tx
    using assms(2) by (simp add: blocked_def)
  have h: "\<exists>res. fst (handled e l f db r broken before c) = Inr res" for l db r broken before c
    by (simp add: handled_def Let_def quiet)
  have "\<exists>res. fst (run_summary e lis f db) = Inr res" for lis db
    by (simp add: run_summary_def assms(1) quiet h Let_def
        split: option.splits sum.splits prod.splits)
  then show ?thesis by (simp add: run_result_summary)
qed

lemma load_failure_is_reported:
  "fst (generate_insights_with_progress missing_file_env ''f'' demo_state) = Inr []
   \<and> map forget (run_effects missing_file_env ''f'' demo_state)
     = [Sent (Status_update ''f'' ''processing'' ''Starting analysis...'' 0) {},
        Sent (progress_message ''f'' ''Parsing dataset'' 1 0) {},
        Committed ''f''
          \<lparr>filepath = ''data.csv'', insights = None, processing_status = ''failed''\<rparr>,
        Sent (Status_update ''f'' ''failed''
          ''Analysis failed: Failed to parse file: File not found: data.csv'' 0) {}]"
  by (simp add: run_result_summary run_effects_summary missing_file_run_summary delivered_def
      early_messages_def)

lemma first_of_None: "first_of checks = None \<longleftrightarrow> list_all (\<lambda>(k, x). x = None) checks"
  by (induction checks rule: first_of.induct) simp_all

lemma stage_value_returned:
  assumes "failure_of (stage_result e st df) = None"
  shows "stage_value e st df =
     (case st of
        Overview \<Rightarrow> generate_overview_insights df
      | Statistical \<Rightarrow> generate_statistical_insights df
      | Pattern \<Rightarrow> generate_pattern_insights df
      | Quality \<Rightarrow> quality_found df)"
  using assms
  by (simp add: failure_of_def stage_value_def stage_result_def quality_found_def
      split: option.splits stage.splits sum.splits exn.splits)

lemma run_insights_returned:
  assumes "\<And>st. failure_of (stage_result e st df) = None"
  shows "run_insights e df = stage_insights df"
  by (simp add: run_insights_def stage_insights_def stage_value_returned [OF assms])

lemma try_failure_None:
  assumes "try_failure e lis f r = None" "parse_file e (filepath r) = Inr df"
  shows "failure_of (stage_result e st df) = None"
  using assms
  by (cases st) (simp_all add: try_failure_def Let_def first_of_None)

lemma handled_database:
  "snd (snd (handled e l f db r broken before c)) =
     (if \<not> broken \<and> commit_failed_raises e = None
      then db(f \<mapsto> r\<lparr>processing_status := ''failed''\<rparr>) else db)"
  by (simp add: handled_def Let_def)

lemma summary_database:
  "g \<noteq> f \<Longrightarrow> snd (snd (run_summary e lis f db)) g = db g"
  by (simp add: run_summary_def handled_database Let_def
      split: option.splits sum.splits prod.splits)

lemma summary_not_found: "db f = None \<Longrightarrow> snd (snd (run_summary e lis f db)) = db"
  by (simp add: run_summary_def Let_def split: option.splits)

lemma summary_insights:
  assumes "db f = Some r"
  shows "\<exists>r'. snd (snd (run_summary e lis f db)) f = Some r'
       \<and> (processing_status r' \<noteq> ''completed'' \<longrightarrow>
            insights r' = insights r
          \<or> (processing_status r' = ''failed''
              \<and> (\<exists>df. parse_file e (filepath r) = Inr df
                    \<and> insights r' = Some (filter_sort_trim (config e) (stage_insights df))
                    \<and> interrupted e
                         (Insights_complete f
                            (length (filter_sort_trim (config e) (stage_insights df)))
                            (elapsed e)))))"
proof (cases "session_raises e")
  case (Some t)
  with assms show ?thesis by (simp add: run_summary_def)
next
  case None
  note sess = this
  show ?thesis
  proof (cases "try_failure e lis f r")
    case (Some failure)
    obtain ms c where "failure = (ms, c)" by (cases failure)
    with Some have tf: "try_failure e lis f r = Some (ms, c)" by simp
    show ?thesis
      by (simp add: run_summary_def sess assms tf handled_database)
  next
    case None
    note tf = this
    show ?thesis
    proof (cases "parse_file e (filepath r)")
      case (Inl x)
      with tf try_failure_unparsed [of e r x lis f] show ?thesis by simp
    next
      case (Inr df)
      note parsed = this
      have same: "run_insights e df = stage_insights df"
        by (rule run_insights_returned) (rule try_failure_None [OF tf parsed])
      show ?thesis
      proof (cases "commit_completed_raises e")
        case (Some c)
        with sess assms tf parsed show ?thesis
          by (simp add: run_summary_def handled_database Let_def)
      next
        case None
        note cc = this
        show ?thesis
        proof (cases "blocked e (lis (announcement_messages e f df))
                        (Insights_complete f
                           (length (filter_sort_trim (config e) (stage_insights df)))
                           (elapsed e))")
          case True
          then have "interrupted e
              (Insights_complete f (length (filter_sort_trim (config e) (stage_insights df)))
                 (elapsed e))"
            by (simp add: blocked_def)
          with True sess assms tf parsed cc show ?thesis
            by (simp add: run_summary_def handled_database Let_def same)
        next
          case False
          with sess assms tf parsed cc show ?thesis
            by (simp add: run_summary_def Let_def same)
        qed
      qed
    qed
  qed
qed

text \<open>
  Claim C2, as amended. A run changes no record but the subject's, and none at all when
  the subject has no record. A subject's record whose status is not \<open>completed\<close> after
  the run holds exactly the insights it held before the run (a failing run never clears
  them), with one exception: when the run has committed its result and the completion
  broadcast then raises, the handler marks the row \<open>failed\<close>, and the row carries the
  insights of this run.
\<close>

theorem status_and_insights_after_run:
  "(database s f = None \<longrightarrow>
      database (snd (generate_insights_with_progress e f s)) = database s)
   \<and> (\<forall>g. g \<noteq> f \<longrightarrow>
          database (snd (generate_insights_with_progress e f s)) g = database s g)
   \<and> (\<forall>r. database s f = Some r \<longrightarrow>
          (\<exists>r'. database (snd (generate_insights_with_progress e f s)) f = Some r'
              \<and> (processing_status r' \<noteq> ''completed'' \<longrightarrow>
                   insights r' = insights r
                 \<or> (processing_status r' = ''failed''
                     \<and> (\<exists>df. parse_file e (filepath r) = Inr df
                           \<and> insights r'
                               = Some (filter_sort_trim (config e) (stage_insights df))
                           \<and> interrupted e
                                (Insights_complete f
                                   (length (filter_sort_trim (config e) (stage_insights df)))
                                   (elapsed e)))))))"
proof (intro conjI allI impI)
  assume "database s f = None"
  then show "database (snd (generate_insights_with_progress e f s)) = database s"
    by (simp add: run_database_summary summary_not_found)
next
  fix g :: string
  assume "g \<noteq> f"
  then show "database (snd (generate_insights_with_progress e f s)) g = database s g"
    by (simp add: run_database_summary summary_database)
next
  fix r
  assume "database s f = Some r"
  from summary_insights [of "database s" f r e "audible e f s", OF this]
  show "\<exists>r'. database (snd (generate_insights_with_progress e f s)) f = Some r'
              \<and> (processing_status r' \<noteq> ''completed'' \<longrightarrow>
                   insights r' = insights r
                 \<or> (processing_status r' = ''failed''
                     \<and> (\<exists>df. parse_file e (filepath r) = Inr df
                           \<and> insights r'
                               = Some (filter_sort_trim (config e) (stage_insights df))
                           \<and> interrupted e
                                (Insights_complete f
                                   (length (filter_sort_trim (config e) (stage_insights df)))
                                   (elapsed e)))))"
    unfolding run_database_summary .
qed

lemma completed_database:
  "database completed_state =
     [''f'' \<mapsto> \<lparr>filepath = ''data.csv'',
                 insights = Some (filter_sort_trim default_settings (stage_insights demo_frame)),
                 processing_status = ''completed''\<rparr>]"
  unfolding completed_state_def run_database_summary demo_run_summary by simp

lemma retriggered_database:
  "database retriggered_state =
     [''f'' \<mapsto> \<lparr>filepath = ''data.csv'',
                 insights = Some (filter_sort_trim default_settings (stage_insights demo_frame)),
                 processing_status = ''processing''\<rparr>]"
  by (simp add: retriggered_state_def completed_database update_processing_status_def)

lemma demo_selected_length:
  "length (filter_sort_trim default_settings (stage_insights demo_frame)) = 5"
proof -
  have "length (filter_sort_trim default_settings xs) = min 5 (length xs)"
    if "filter (\<lambda>i. confidence i \<ge> min_confidence_score default_settings) xs = xs" for xs
    using that by (simp add: filter_sort_trim_def py_slice_to_def py_sort_reverse_def
        default_settings_def Let_def)
  moreover have "length (stage_insights demo_frame) = 7"
    by (simp add: stage_insights_def demo_overview_insights demo_statistical_insights
        demo_pattern_insights demo_quality_insights quality_found_def)
  moreover have "filter (\<lambda>i. confidence i \<ge> min_confidence_score default_settings)
      (stage_insights demo_frame) = stage_insights demo_frame"
    by (simp add: stage_insights_def demo_overview_insights demo_statistical_insights
        demo_pattern_insights demo_quality_insights quality_found_def default_settings_def)
  ultimately show ?thesis by simp
qed

lemma retriggered_run_summary:
  "snd (snd (run_summary missing_file_env lis ''f'' (database retriggered_state))) ''f'' =
     Some \<lparr>filepath = ''data.csv'',
           insights = Some (filter_sort_trim default_settings (stage_insights demo_frame)),
           processing_status = ''failed''\<rparr>"
proof -
  let ?r = "\<lparr>filepath = ''data.csv'',
             insights = Some (filter_sort_trim default_settings (stage_insights demo_frame)),
             processing_status = ''processing''\<rparr>"
  have quiet: "raise_at missing_file_env lis ms k = None" for ms k
    by (rule raise_at_uninterrupted) (simp add: missing_file_env_def demo_env_def)
  have tf: "try_failure missing_file_env lis ''f'' ?r
      = Some (take 2 (early_messages ''f''),
              ''Failed to parse file: File not found: data.csv'')"
    by (simp add: try_failure_def Let_def quiet missing_file_parse)
  have env: "session_raises missing_file_env = None" "commit_failed_raises missing_file_env = None"
    by (simp_all add: missing_file_env_def demo_env_def)
  show ?thesis
    by (simp add: run_summary_def retriggered_database env tf handled_database)
qed

text \<open>
  Claim C2, as stated, fails: a subject that was completed, is triggered again and fails in
  the new run (its file is gone) ends with status \<open>failed\<close> and still holds the five
  insights of the first run.
\<close>

theorem failed_rerun_still_has_insights:
  "map_option processing_status
     (database (snd (generate_insights_with_progress missing_file_env ''f'' retriggered_state))
        ''f'') = Some ''failed''
   \<and> map_option insights
     (database (snd (generate_insights_with_progress missing_file_env ''f'' retriggered_state))
        ''f'') = Some (Some (filter_sort_trim default_settings (stage_insights demo_frame)))
   \<and> length (filter_sort_trim default_settings (stage_insights demo_frame)) = 5"
  unfolding run_database_summary retriggered_run_summary
  by (simp add: demo_selected_length)

theorem status_and_insights_after_run_witness:
  "database demo_state ''f''
     = Some \<lparr>filepath = ''data.csv'', insights = None, processing_status = ''processing''\<rparr>
   \<and> database (snd (generate_insights_with_progress missing_file_env ''f'' demo_state)) ''f''
       = Some \<lparr>filepath = ''data.csv'', insights = None, processing_status = ''failed''\<rparr>
   \<and> (\<exists>r'. database (snd (generate_insights_with_progress missing_file_env ''f'' demo_state))
              ''f'' = Some r'
          \<and> insights r' = None)
   \<and> database (snd (generate_insights_with_progress missing_file_env ''f'' demo_state))
       ''nobody'' = None
   \<and> database (snd (generate_insights_with_progress demo_env ''nobody'' demo_state))
       = database demo_state"
proof -
  let ?r = "\<lparr>filepath = ''data.csv'', insights = None, processing_status = ''processing''\<rparr>"
  have h: "database demo_state ''f'' = Some ?r"
    by (rule demo_record)
  have after: "database (snd (generate_insights_with_progress missing_file_env ''f'' demo_state))
       ''f''
       = Some \<lparr>filepath = ''data.csv'', insights = None, processing_status = ''failed''\<rparr>"
    unfolding run_database_summary missing_file_run_summary by simp
  note inst = status_and_insights_after_run [of demo_state "''f''" missing_file_env]
  from inst
  have "\<forall>r. database demo_state ''f'' = Some r
        \<longrightarrow> (\<exists>r'. database (snd (generate_insights_with_progress missing_file_env ''f''
                         demo_state)) ''f'' = Some r'
              \<and> (processing_status r' \<noteq> ''completed'' \<longrightarrow>
                   insights r' = insights r
                 \<or> (processing_status r' = ''failed''
                     \<and> (\<exists>df. parse_file missing_file_env (filepath r) = Inr df
                           \<and> insights r'
                               = Some (filter_sort_trim (config missing_file_env)
                                         (stage_insights df))
                           \<and> interrupted missing_file_env
                                (Insights_complete ''f''
                                   (length (filter_sort_trim (config missing_file_env)
                                              (stage_insights df)))
                                   (elapsed missing_file_env))))))"
    by (elim conjE)
  from this [rule_format, of ?r, OF h] obtain r' where
    r': "database (snd (generate_insights_with_progress missing_file_env ''f'' demo_state)) ''f''
          = Some r'"
    and keep: "processing_status r' \<noteq> ''completed'' \<longrightarrow>
                 insights r' = insights ?r
               \<or> (processing_status r' = ''failed''
                   \<and> (\<exists>df. parse_file missing_file_env (filepath ?r) = Inr df
                         \<and> insights r'
                             = Some (filter_sort_trim (config missing_file_env)
                                       (stage_insights df))
                         \<and> interrupted missing_file_env
                              (Insights_complete ''f''
                                 (length (filter_sort_trim (config missing_file_env)
                                            (stage_insights df)))
                                 (elapsed missing_file_env))))"
    by (elim exE conjE)
  from r' after
  have "r' = \<lparr>filepath = ''data.csv'', insights = None, processing_status = ''failed''\<rparr>"
    by simp
  then have "processing_status r' = ''failed''" by simp
  with keep have "insights r' = None"
    by (simp add: missing_file_parse)
  with r' have ex: "\<exists>r'. database (snd (generate_insights_with_progress missing_file_env ''f''
       demo_state)) ''f'' = Some r' \<and> insights r' = None"
    by blast
  from inst have "\<forall>g. g \<noteq> ''f'' \<longrightarrow>
      database (snd (generate_insights_with_progress missing_file_env ''f'' demo_state)) g
        = database demo_state g"
    by (elim conjE)
  then have other: "database (snd (generate_insights_with_progress missing_file_env ''f''
      demo_state)) ''nobody'' = None"
    by (simp add: demo_record)
  from status_and_insights_after_run [of demo_state "''nobody''" demo_env]
  have "database demo_state ''nobody'' = None \<longrightarrow>
      database (snd (generate_insights_with_progress demo_env ''nobody'' demo_state))
        = database demo_state"
    by (elim conjE)
  then have absent: "database (snd (generate_insights_with_progress demo_env ''nobody''
      demo_state)) = database demo_state"
    by (simp add: demo_record)
  from h after ex other absent show ?thesis by (intro conjI)
qed

lemma run_without_failure:
  assumes "session_raises e = None" "database s f = Some r"
    and "parse_file e (filepath r) = Inr df"
    and "\<forall>st. \<exists>found. stage_result e st df = Inr found"
    and "commit_completed_raises e = None"
    and "\<forall>msg. \<not> interrupted e msg"
  shows "fst (generate_insights_with_progress e f s)
           = Inr (filter_sort_trim (config e) (stage_insights df))"
    and "database (snd (generate_insights_with_progress e f s)) f
           = Some (r\<lparr>insights := Some (filter_sort_trim (config e) (stage_insights df)),
                     processing_status := ''completed''\<rparr>)"
proof -
  let ?lis = "audible e f s"
  have stages: "failure_of (stage_result e st df) = None" for st
  proof -
    from assms(4) obtain found where "stage_result e st df = Inr found" by blast
    then show ?thesis by (simp add: failure_of_def)
  qed
  have quiet: "blocked e l msg = False" for l msg
    using assms(6) by (simp add: blocked_def)
  have silent: "raise_at e ?lis ms k = None" for ms k
    by (simp add: raise_at_def raise_of_def quiet)
  have tf: "try_failure e ?lis f r = None"
    by (simp add: try_failure_def Let_def assms(3) silent stages)
  have same: "run_insights e df = stage_insights df"
    by (rule run_insights_returned) (rule stages)
  have "run_summary e ?lis f (database s) =
     (Inr (filter_sort_trim (config e) (stage_insights df)),
      delivered (announcement_messages e f df)
        @ [Committed f (r\<lparr>insights := Some (filter_sort_trim (config e) (stage_insights df)),
                           processing_status := ''completed''\<rparr>),
           Sent (Insights_complete f (length (filter_sort_trim (config e) (stage_insights df)))
                   (elapsed e)) {}],
      (database s)(f \<mapsto> r\<lparr>insights := Some (filter_sort_trim (config e) (stage_insights df)),
                              processing_status := ''completed''\<rparr>))"
    by (simp add: run_summary_def assms(1,2,3,5) tf quiet same Let_def)
  then show "fst (generate_insights_with_progress e f s)
           = Inr (filter_sort_trim (config e) (stage_insights df))"
    and "database (snd (generate_insights_with_progress e f s)) f
           = Some (r\<lparr>insights := Some (filter_sort_trim (config e) (stage_insights df)),
                     processing_status := ''completed''\<rparr>)"
    by (simp_all add: run_result_summary run_database_summary)
qed

text \<open>
  Claim C4. A run that meets no failure (the session opens, the record exists, the file
  loads, every stage returns, the commit and the broadcasts do not raise), with a
  non-negative \<open>max_insights\<close>, returns the selection that the claim describes from the
  insights of the four stages in emission order, and persists it with the status
  \<open>completed\<close>: the insights that reach the threshold, in descending order of
  confidence with ties in emission order, cut to the first \<open>max_insights\<close>. The result
  is a top-ranked part of the kept insights, and an insight of strictly higher confidence
  always comes before one of lower confidence.
\<close>

theorem run_returns_ranked_selection:
  fixes e :: env and s :: run_state and df :: dataframe
  assumes "session_raises e = None" "database s f = Some r"
    and "parse_file e (filepath r) = Inr df"
    and "\<forall>st. \<exists>found. stage_result e st df = Inr found"
    and "commit_completed_raises e = None"
    and "\<forall>msg. \<not> interrupted e msg"
    and "0 \<le> max_insights (config e)"
  defines "kept \<equiv> filter (\<lambda>i. min_confidence_score (config e) \<le> confidence i)
                     (stage_insights df)"
  defines "res \<equiv> spec_select (min_confidence_score (config e)) (nat (max_insights (config e)))
                    (stage_insights df)"
  shows "fst (generate_insights_with_progress e f s) = Inr res
       \<and> database (snd (generate_insights_with_progress e f s)) f
           = Some (r\<lparr>insights := Some res, processing_status := ''completed''\<rparr>)
       \<and> length res = min (nat (max_insights (config e))) (length kept)
       \<and> (\<exists>rest. mset res + mset rest = mset kept
                \<and> (\<forall>a \<in> set res. \<forall>b \<in> set rest. confidence b \<le> confidence a))
       \<and> sorted_wrt (\<lambda>a b. confidence b \<le> confidence a) res
       \<and> (\<forall>c. prefix (filter (\<lambda>i. confidence i = c) res) (filter (\<lambda>i. confidence i = c) kept))
       \<and> (\<forall>i < length res. \<forall>j < length res.
             confidence (res ! j) < confidence (res ! i) \<longrightarrow> i < j)"
proof -
  note sel = filter_sort_trim_characterised [OF assms(7), of "stage_insights df"]
  from sel have eq: "filter_sort_trim (config e) (stage_insights df) = res"
    unfolding res_def by (elim conjE)
  note run = run_without_failure [OF assms(1-6)]
  from run(1) have a: "fst (generate_insights_with_progress e f s) = Inr res"
    by (simp add: eq)
  from run(2) have b: "database (snd (generate_insights_with_progress e f s)) f
           = Some (r\<lparr>insights := Some res, processing_status := ''completed''\<rparr>)"
    by (simp add: eq)
  from sel have c: "length res = min (nat (max_insights (config e))) (length kept)"
    unfolding eq kept_def by (elim conjE)
  from sel have d: "\<exists>rest. mset res + mset rest = mset kept
                \<and> (\<forall>a \<in> set res. \<forall>b \<in> set rest. confidence b \<le> confidence a)"
    unfolding eq kept_def by (elim conjE)
  from sel have g: "sorted_wrt (\<lambda>a b. confidence b \<le> confidence a) res"
    unfolding eq by (elim conjE)
  from sel have h: "\<forall>c. prefix (filter (\<lambda>i. confidence i = c) res)
                         (filter (\<lambda>i. confidence i = c) kept)"
    unfolding eq kept_def by (elim conjE)
  from sel have i: "\<forall>i < length res. \<forall>j < length res.
             confidence (res ! j) < confidence (res ! i) \<longrightarrow> i < j"
    unfolding eq by (elim conjE)
  from a b c d g h i show ?thesis by (intro conjI)
qed

lemma demo_selected_titles:
  "map title (spec_select (1 / 10) 5 (stage_insights demo_frame))
     = [''Dataset Overview'', ''Strong Positive Correlation'', ''Missing Data in w'',
        ''High Variability in x'', ''High Variability in y'']"
  by code_simp

theorem run_returns_ranked_selection_witness:
  "fst (generate_insights_with_progress demo_env ''f'' demo_state)
     = Inr (spec_select (1 / 10) 5 (stage_insights demo_frame))
   \<and> database (snd (generate_insights_with_progress demo_env ''f'' demo_state)) ''f''
     = Some \<lparr>filepath = ''data.csv'',
             insights = Some (spec_select (1 / 10) 5 (stage_insights demo_frame)),
             processing_status = ''completed''\<rparr>
   \<and> map title (spec_select (1 / 10) 5 (stage_insights demo_frame))
     = [''Dataset Overview'', ''Strong Positive Correlation'', ''Missing Data in w'',
        ''High Variability in x'', ''High Variability in y'']
   \<and> sorted_wrt (\<lambda>a b. confidence b \<le> confidence a)
        (spec_select (1 / 10) 5 (stage_insights demo_frame))"
proof -
  let ?r = "\<lparr>filepath = ''data.csv'', insights = None, processing_status = ''processing''\<rparr>"
  have stages: "\<forall>st. \<exists>found. stage_result demo_env st demo_frame = Inr found"
  proof
    fix st
    show "\<exists>found. stage_result demo_env st demo_frame = Inr found"
      by (cases st) (simp_all add: demo_stage_results)
  qed
  have env: "session_raises demo_env = None" "parse_file demo_env (filepath ?r) = Inr demo_frame"
    "commit_completed_raises demo_env = None" "\<forall>msg. \<not> interrupted demo_env msg"
    "0 \<le> max_insights (config demo_env)"
    by (simp_all add: demo_env_def default_settings_def)
  have cfg: "min_confidence_score (config demo_env) = 1 / 10"
    "nat (max_insights (config demo_env)) = 5"
    by (simp_all add: demo_env_def default_settings_def)
  note inst = run_returns_ranked_selection [OF env(1) demo_record(1) env(2) stages env(3-5)]
  from inst have a: "fst (generate_insights_with_progress demo_env ''f'' demo_state)
     = Inr (spec_select (1 / 10) 5 (stage_insights demo_frame))"
    unfolding cfg by (elim conjE)
  from inst
  have "database (snd (generate_insights_with_progress demo_env ''f'' demo_state)) ''f''
     = Some (?r\<lparr>insights := Some (spec_select (1 / 10) 5 (stage_insights demo_frame)),
                processing_status := ''completed''\<rparr>)"
    unfolding cfg by (elim conjE)
  then have b: "database (snd (generate_insights_with_progress demo_env ''f'' demo_state)) ''f''
     = Some \<lparr>filepath = ''data.csv'',
             insights = Some (spec_select (1 / 10) 5 (stage_insights demo_frame)),
             processing_status = ''completed''\<rparr>"
    by simp
  from inst have c: "sorted_wrt (\<lambda>a b. confidence b \<le> confidence a)
        (spec_select (1 / 10) 5 (stage_insights demo_frame))"
    unfolding cfg by (elim conjE)
  from a b demo_selected_titles c show ?thesis by (intro conjI)
qed

end
